theory Spec2Isabelle
  imports Main "HOL-Library.Sublist"
begin

section \<open>JavaScript string primitives used by the orchestrator\<close>

text \<open>
  Strings are lists of code units. The model covers the code units \<open>0x00..0xFF\<close>
  (one \<^typ>\<open>char\<close> each); the white space and line terminators of ECMAScript
  that lie in this range are listed in full below.
\<close>

definition LF :: char where
  "LF = CHR 0x0A"

definition DQUOTE :: char where
  "DQUOTE = CHR 0x22"

text \<open>\<^verbatim>\<open>String.prototype.trim\<close> strips WhiteSpace and LineTerminator code units:
  TAB, LF, VT, FF, CR, SP and NBSP in the modelled range.\<close>

definition is_js_space :: "char \<Rightarrow> bool" where
  "is_js_space c \<longleftrightarrow>
     c = CHR 0x09 \<or> c = CHR 0x0A \<or> c = CHR 0x0B \<or> c = CHR 0x0C \<or>
     c = CHR 0x0D \<or> c = CHR 0x20 \<or> c = CHR 0xA0"

text \<open>The \<^verbatim>\<open>.\<close> of a regular expression (without the \<^verbatim>\<open>s\<close> flag) refuses
  line terminators: LF and CR in the modelled range.\<close>

definition is_line_terminator :: "char \<Rightarrow> bool" where
  "is_line_terminator c \<longleftrightarrow> c = CHR 0x0A \<or> c = CHR 0x0D"

definition trim :: "string \<Rightarrow> string" where
  "trim s = rev (dropWhile is_js_space (rev (dropWhile is_js_space s)))"

text \<open>\<^verbatim>\<open>s.split(sep)\<close> for a separator of one code unit: the empty string gives
  one empty piece, and a trailing separator gives a trailing empty piece.\<close>

fun split :: "char \<Rightarrow> string \<Rightarrow> string list" where
  "split sep [] = [[]]"
| "split sep (c # cs) =
     (if c = sep then [] # split sep cs
      else (case split sep cs of
              [] \<Rightarrow> [[c]]
            | l # ls \<Rightarrow> (c # l) # ls))"

text \<open>\<^verbatim>\<open>arr[i]\<close> is \<^verbatim>\<open>undefined\<close> out of range.\<close>

definition index :: "'a list \<Rightarrow> nat \<Rightarrow> 'a option" where
  "index xs i = (if i < length xs then Some (xs ! i) else None)"

text \<open>\<^verbatim>\<open>[...new Set(xs)]\<close>: the distinct elements in order of first insertion.\<close>

definition set_spread :: "'a list \<Rightarrow> 'a list" where
  "set_spread xs = fold (\<lambda>x acc. if x \<in> set acc then acc else acc @ [x]) xs []"

text \<open>Decimal rendering of a non-negative integer inside a template literal.\<close>

definition digit :: "nat \<Rightarrow> char" where
  "digit d = char_of (48 + d)"

function toString :: "nat \<Rightarrow> string" where
  "toString n = (if n < 10 then [digit n] else toString (n div 10) @ [digit (n mod 10)])"
  by pat_completeness auto
termination
  by (relation "measure (\<lambda>n. n)") auto

declare toString.simps [simp del]

section \<open>Data model (types.ts)\<close>

text \<open>Of the browser's \<^verbatim>\<open>File\<close> only the name and the MIME type are read.\<close>

record File =
  name :: string
  type :: string

record BaseImage =
  file' :: File
  base64 :: string

record GeneratedImage =
  id' :: string
  prompt :: string
  base64 :: string

record ConsistencyLocks =
  headAndFaceShape :: bool
  eyesStyle :: bool
  mouthStyle :: bool
  outlineThickness :: bool
  shadingStyle :: bool

record PromptTuning =
  expressionIntensity :: int
  propSize :: int

section \<open>Generation Client interface (services/geminiService.ts)\<close>

record ImageInput =
  data :: "string option"
  mimeType :: string

record Colors =
  primary :: string
  secondary :: string

record GenerateVariationParams =
  gv_baseImage :: ImageInput
  gv_prompt :: string
  gv_colors :: Colors
  gv_useStrictPalette :: bool
  gv_consistencyLocks :: ConsistencyLocks
  gv_promptTuning :: PromptTuning

text \<open>
  The external service is a parameter of the model. \<open>gen k p\<close> is the outcome of the
  \<open>k\<close>-th call of \<^verbatim>\<open>generateVariation\<close> of a run, issued with parameters \<open>p\<close>:
  \<open>Some d\<close> when the promise resolves with image data \<open>d\<close>, \<open>None\<close> when it rejects.
  \<open>now k\<close> is the value of \<^verbatim>\<open>Date.now()\<close> read after that call.
\<close>

type_synonym client = "nat \<Rightarrow> GenerateVariationParams \<Rightarrow> string option"

type_synonym clock = "nat \<Rightarrow> nat"

section \<open>Application state (App.tsx)\<close>

definition INITIAL_PRESETS :: "string list" where
  "INITIAL_PRESETS =
     [''happy grin'', ''shocked'', ''crying tears of joy'', ''winking'', ''reading a book'',
      ''using a laptop'', ''holding a coffee mug'', ''giving a thumbs-up'',
      ''in a superhero pose'', ''wearing a party hat with confetti'', ''wearing a Santa hat'',
      ''holding a pumpkin'']"

record Progress =
  current :: nat
  total :: nat

text \<open>
  The state variables of the \<^verbatim>\<open>App\<close> component. \<open>generatedImages_ref\<close> stands
  for the identity of the array object held in \<^verbatim>\<open>generatedImages\<close>: React compares
  effect dependencies by identity, and every call site of \<^verbatim>\<open>setGeneratedImages\<close>
  passes a freshly allocated array (a literal, a spread copy, or the result of
  \<^verbatim>\<open>filter\<close> or \<^verbatim>\<open>map\<close>), for which the model takes the next unused identity.
\<close>

record App =
  baseImage :: "BaseImage option"
  variations :: string
  primaryColor :: string
  secondaryColor :: string
  useStrictPalette :: bool
  consistencyLocks :: ConsistencyLocks
  promptTuning :: PromptTuning
  generatedImages :: "GeneratedImage list"
  generatedImages_ref :: nat
  isLoading :: bool
  progress :: "Progress option"
  error :: "string option"
  presets :: "string list"
  savePresetsConfirmation :: "string list option"

definition setGeneratedImages :: "GeneratedImage list \<Rightarrow> App \<Rightarrow> App" where
  "setGeneratedImages imgs s =
     s\<lparr>generatedImages := imgs, generatedImages_ref := Suc (generatedImages_ref s)\<rparr>"

definition setError :: "string option \<Rightarrow> App \<Rightarrow> App" where
  "setError e s = s\<lparr>error := e\<rparr>"

definition setIsLoading :: "bool \<Rightarrow> App \<Rightarrow> App" where
  "setIsLoading b s = s\<lparr>isLoading := b\<rparr>"

definition setProgress :: "Progress option \<Rightarrow> App \<Rightarrow> App" where
  "setProgress p s = s\<lparr>progress := p\<rparr>"

text \<open>The \<^verbatim>\<open>onChange\<close> of the variation text box (ControlsPanel).\<close>

definition setVariations :: "string \<Rightarrow> App \<Rightarrow> App" where
  "setVariations v s = s\<lparr>variations := v\<rparr>"

subsection \<open>The request list\<close>

text \<open>\<^verbatim>\<open>variations.split('\n').map(p => p.trim()).filter(p => p.length > 0)\<close>\<close>

definition variationPrompts :: "string \<Rightarrow> string list" where
  "variationPrompts v = filter (\<lambda>p. length p > 0) (map trim (split LF v))"

subsection \<open>executeGeneration\<close>

text \<open>The argument object of the \<^verbatim>\<open>generateVariation\<close> call in the loop body.\<close>

definition generateVariation_args :: "App \<Rightarrow> BaseImage \<Rightarrow> string \<Rightarrow> GenerateVariationParams" where
  "generateVariation_args s b p =
     \<lparr>gv_baseImage = \<lparr>data = index (split (CHR '','') (BaseImage.base64 b)) 1,
                       mimeType = type (file' b)\<rparr>,
      gv_prompt = p,
      gv_colors = \<lparr>primary = primaryColor s, secondary = secondaryColor s\<rparr>,
      gv_useStrictPalette = useStrictPalette s,
      gv_consistencyLocks = consistencyLocks s,
      gv_promptTuning = promptTuning s\<rparr>"

definition generation_error :: "string \<Rightarrow> string" where
  "generation_error p =
     ''Failed to generate variation for: '' @ [DQUOTE] @ p @ [DQUOTE] @ ''. Please try again.''"

text \<open>The object pushed onto \<^verbatim>\<open>newImages\<close> after a successful call at index \<open>i\<close>.\<close>

definition newImage :: "clock \<Rightarrow> nat \<Rightarrow> string \<Rightarrow> string \<Rightarrow> GeneratedImage" where
  "newImage now i p resultBase64 =
     \<lparr>id' = toString (now i) @ ''-'' @ toString i,
      prompt = p,
      base64 = ''data:image/png;base64,'' @ resultBase64\<rparr>"

text \<open>
  The \<^verbatim>\<open>for\<close> loop of \<^verbatim>\<open>executeGeneration\<close>, by recursion on the prompts from
  index \<open>i\<close> on. \<open>c\<close> holds the values the callback closed over, \<open>n\<close> is
  \<^verbatim>\<open>variationPrompts.length\<close>, \<open>newImages\<close> the local array, \<open>s\<close> the state the
  setters act on and \<open>calls\<close> the log of the calls issued to the Generation Client.
  The \<^verbatim>\<open>catch\<close> branch returns from the whole function.
\<close>

fun generation_loop ::
  "client \<Rightarrow> clock \<Rightarrow> App \<Rightarrow> BaseImage \<Rightarrow> nat \<Rightarrow> nat \<Rightarrow> string list \<Rightarrow>
   GeneratedImage list \<Rightarrow> App \<Rightarrow> GenerateVariationParams list \<Rightarrow>
   App \<times> GenerateVariationParams list" where
  "generation_loop gen now c b n i [] newImages s calls =
     (setProgress None (setIsLoading False s), calls)"
| "generation_loop gen now c b n i (p # ps) newImages s calls =
     (let s1 = setProgress (Some \<lparr>current = i + 1, total = n\<rparr>) s;
          args = generateVariation_args c b p
      in case gen i args of
           Some resultBase64 \<Rightarrow>
             (let newImages' = newImages @ [newImage now i p resultBase64]
              in generation_loop gen now c b n (i + 1) ps newImages'
                   (setGeneratedImages newImages' s1) (calls @ [args]))
         | None \<Rightarrow>
             (setProgress None (setIsLoading False
                (setError (Some (generation_error p)) s1)), calls @ [args]))"

definition executeGeneration :: "client \<Rightarrow> clock \<Rightarrow> App \<Rightarrow> App \<times> GenerateVariationParams list" where
  "executeGeneration gen now s =
     (case baseImage s of
        None \<Rightarrow> (setError (Some ''Please upload a base image first.'') s, [])
      | Some b \<Rightarrow>
          (let variationPrompts = variationPrompts (variations s) in
           if length variationPrompts = 0
           then (setError (Some ''Please enter at least one variation prompt.'') s, [])
           else
             (let s1 = setProgress (Some \<lparr>current = 0, total = length variationPrompts\<rparr>)
                         (setGeneratedImages [] (setError None (setIsLoading True s)))
              in generation_loop gen now s b (length variationPrompts) 0 variationPrompts
                   [] s1 [])))"

subsection \<open>handleGenerate and the preset confirmation\<close>

definition handleGenerate :: "client \<Rightarrow> clock \<Rightarrow> App \<Rightarrow> App \<times> GenerateVariationParams list" where
  "handleGenerate gen now s =
     (case baseImage s of
        None \<Rightarrow> (setError (Some ''Please upload a base image first.'') s, [])
      | Some b \<Rightarrow>
          (let variationPrompts = variationPrompts (variations s) in
           if length variationPrompts = 0
           then (setError (Some ''Please enter at least one variation prompt.'') s, [])
           else if length variationPrompts > 30
           then (setError (Some ''Batch mode supports up to 30 variations per run.'') s, [])
           else
             (let newVariations =
                    set_spread (filter (\<lambda>v. v \<notin> set (presets s)) variationPrompts)
              in if length newVariations > 0
                 then (s\<lparr>savePresetsConfirmation := Some newVariations\<rparr>, [])
                 else executeGeneration gen now s)))"

text \<open>
  Both answers of the confirmation dialog call the \<^verbatim>\<open>executeGeneration\<close> of the
  render that showed the dialog. That callback reads the base image, the variation text
  and the style settings, none of which the two setters before the call touch, so it is
  run here on the state the setters produce.
\<close>

definition handleConfirmSavePresets ::
  "client \<Rightarrow> clock \<Rightarrow> App \<Rightarrow> App \<times> GenerateVariationParams list" where
  "handleConfirmSavePresets gen now s =
     (let s1 = (case savePresetsConfirmation s of
                  Some sv \<Rightarrow> s\<lparr>presets := set_spread (presets s @ sv)\<rparr>
                | None \<Rightarrow> s);
          s2 = s1\<lparr>savePresetsConfirmation := None\<rparr>
      in executeGeneration gen now s2)"

definition handleDeclineSavePresets ::
  "client \<Rightarrow> clock \<Rightarrow> App \<Rightarrow> App \<times> GenerateVariationParams list" where
  "handleDeclineSavePresets gen now s =
     executeGeneration gen now (s\<lparr>savePresetsConfirmation := None\<rparr>)"

subsection \<open>Delete and in-place edits\<close>

definition handleDeleteImage :: "string \<Rightarrow> App \<Rightarrow> App" where
  "handleDeleteImage i s =
     setGeneratedImages (filter (\<lambda>img. id' img \<noteq> i) (generatedImages s)) s"

definition handleUpdateImageBase64 :: "string \<Rightarrow> string \<Rightarrow> App \<Rightarrow> App" where
  "handleUpdateImageBase64 i newBase64 s =
     setGeneratedImages
       (map (\<lambda>img. if id' img = i then img\<lparr>base64 := newBase64\<rparr> else img)
          (generatedImages s)) s"

text \<open>
  \<^verbatim>\<open>base64ToFile\<close> (utils/fileUtils.ts). The match of \<^verbatim>\<open>/:(.*?);/\<close> starts at the
  leftmost colon from which a semicolon is reached without crossing a line terminator,
  and captures the text up to the first such semicolon.
\<close>

fun mimeMatch :: "string \<Rightarrow> string option" where
  "mimeMatch [] = None"
| "mimeMatch (c # cs) =
     (if c = CHR '':'' then
        (let body = takeWhile (\<lambda>x. x \<noteq> CHR '';'') cs in
         if length body < length cs \<and> \<not> list_ex is_line_terminator body
         then Some body else mimeMatch cs)
      else mimeMatch cs)"

text \<open>The \<^verbatim>\<open>File\<close> constructor keeps a type of printable ASCII only, in lower case,
  and replaces any other type by the empty string.\<close>

definition ascii_lower :: "char \<Rightarrow> char" where
  "ascii_lower c =
     (if 65 \<le> (of_char c :: nat) \<and> (of_char c :: nat) \<le> 90
      then char_of ((of_char c :: nat) + 32) else c)"

definition blob_type :: "string \<Rightarrow> string" where
  "blob_type t =
     (if list_all (\<lambda>c. 32 \<le> (of_char c :: nat) \<and> (of_char c :: nat) \<le> 126) t
      then map ascii_lower t else [])"

datatype 'a js_result = Throws | Returns 'a

text \<open>\<^verbatim>\<open>atob\<close> is the browser's decoder, a parameter here: \<open>None\<close> when it throws.\<close>

definition base64ToFile ::
  "(string \<Rightarrow> string option) \<Rightarrow> string \<Rightarrow> string \<Rightarrow> File option js_result" where
  "base64ToFile atob dataUrl filename =
     (let arr = split (CHR '','') dataUrl in
      if length arr < 2 then Returns None
      else
        (case mimeMatch (arr ! 0) of
           None \<Rightarrow> Returns None
         | Some mime \<Rightarrow>
             (case atob (arr ! 1) of
                None \<Rightarrow> Throws
              | Some bstr \<Rightarrow> Returns (Some \<lparr>name = filename, type = blob_type mime\<rparr>))))"

text \<open>
  An asynchronous handler either settles before its first \<^verbatim>\<open>await\<close> or suspends with
  the request it sent; other handlers may run before the answer arrives. A promise
  resolves or rejects, in both cases with the state its setters produced.
\<close>

datatype completion = Resolved App | Rejected App

datatype suspension = Settled completion | Awaiting ImageInput

definition edit_start ::
  "(string \<Rightarrow> string option) \<Rightarrow> string \<Rightarrow> App \<Rightarrow> suspension" where
  "edit_start atob i s =
     (case find (\<lambda>img. id' img = i) (generatedImages s) of
        None \<Rightarrow> Settled (Resolved (setError (Some ''Could not find the image to modify.'') s))
      | Some imageToUpdate \<Rightarrow>
          (case base64ToFile atob (base64 imageToUpdate) ''image.png'' of
             Throws \<Rightarrow> Settled (Rejected s)
           | Returns None \<Rightarrow>
               Settled (Resolved (setError (Some ''Could not process the image file.'') s))
           | Returns (Some imageFile) \<Rightarrow>
               Awaiting \<lparr>data = index (split (CHR '','') (base64 imageToUpdate)) 1,
                          mimeType = type imageFile\<rparr>))"

definition edit_settle :: "string \<Rightarrow> string \<Rightarrow> string option \<Rightarrow> App \<Rightarrow> completion" where
  "edit_settle failure i outcome s =
     (case outcome of
        Some resultBase64 \<Rightarrow>
          Resolved (setGeneratedImages
            (map (\<lambda>img. if id' img = i
                         then img\<lparr>base64 := ''data:image/png;base64,'' @ resultBase64\<rparr>
                         else img)
               (generatedImages s)) s)
      | None \<Rightarrow> Rejected (setError (Some failure) s))"

text \<open>
  \<^verbatim>\<open>handleRemoveBackground\<close> and \<^verbatim>\<open>handleAddOutline\<close> have the same text up to the
  service they call and the message of their \<^verbatim>\<open>catch\<close> branch. The part before the
  \<^verbatim>\<open>await\<close> reads the collection of the render the callback belongs to; the part
  after it updates the collection current at that time.
\<close>

definition handleRemoveBackground_start ::
  "(string \<Rightarrow> string option) \<Rightarrow> string \<Rightarrow> App \<Rightarrow> suspension" where
  "handleRemoveBackground_start atob i s = edit_start atob i s"

definition handleRemoveBackground_settle :: "string \<Rightarrow> string option \<Rightarrow> App \<Rightarrow> completion" where
  "handleRemoveBackground_settle i outcome s =
     edit_settle
       ''Sorry, the background could not be removed. This can happen with complex images. Please try again.''
       i outcome s"

definition handleAddOutline_start ::
  "(string \<Rightarrow> string option) \<Rightarrow> string \<Rightarrow> string \<Rightarrow> int \<Rightarrow> App \<Rightarrow> suspension" where
  "handleAddOutline_start atob i color width s = edit_start atob i s"

definition handleAddOutline_settle :: "string \<Rightarrow> string option \<Rightarrow> App \<Rightarrow> completion" where
  "handleAddOutline_settle i outcome s =
     edit_settle
       ''Sorry, the outline could not be added. Please try different settings or another image.''
       i outcome s"

section \<open>Result browser (components/OutputArea.tsx)\<close>

text \<open>
  The state of \<^verbatim>\<open>OutputArea\<close>. \<open>effect_dep\<close> is the identity of the
  \<^verbatim>\<open>generatedImages\<close> array for which the selection effect last ran (\<open>None\<close> before
  the first render).
\<close>

record OutputArea =
  selectedImages :: "string set"
  modalImageIndex :: "int option"
  effect_dep :: "nat option"

text \<open>The \<^verbatim>\<open>useEffect\<close> with dependency \<^verbatim>\<open>[generatedImages]\<close>, run after a render.\<close>

definition selection_effect :: "App \<Rightarrow> OutputArea \<Rightarrow> OutputArea" where
  "selection_effect s out =
     (if effect_dep out = Some (generatedImages_ref s) then out
      else out\<lparr>selectedImages := set (map id' (generatedImages s)),
                effect_dep := Some (generatedImages_ref s)\<rparr>)"

text \<open>The effect has last run for the array now in the state or for an earlier one
  (or has not run yet): what holds between two events of the browser.\<close>

definition effect_seen :: "OutputArea \<Rightarrow> App \<Rightarrow> bool" where
  "effect_seen out s =
     (case effect_dep out of None \<Rightarrow> True | Some r \<Rightarrow> r \<le> generatedImages_ref s)"

definition handleSelectImage :: "string \<Rightarrow> OutputArea \<Rightarrow> OutputArea" where
  "handleSelectImage i out =
     out\<lparr>selectedImages :=
            (if i \<in> selectedImages out then selectedImages out - {i}
             else insert i (selectedImages out))\<rparr>"

definition currentImage :: "App \<Rightarrow> OutputArea \<Rightarrow> GeneratedImage option" where
  "currentImage s out =
     (case modalImageIndex out of
        None \<Rightarrow> None
      | Some k \<Rightarrow>
          (if 0 \<le> k \<and> k < int (length (generatedImages s))
           then Some (generatedImages s ! nat k) else None))"

definition handleDeleteFromModal :: "string \<Rightarrow> App \<times> OutputArea \<Rightarrow> App \<times> OutputArea" where
  "handleDeleteFromModal idToDelete st =
     (let s = fst st; out = snd st;
          currentTotal = int (length (generatedImages s));
          s' = handleDeleteImage idToDelete s
      in if currentTotal \<le> 1 then (s', out\<lparr>modalImageIndex := None\<rparr>)
         else if modalImageIndex out \<noteq> None \<and> the (modalImageIndex out) \<ge> currentTotal - 1
         then (s', out\<lparr>modalImageIndex :=
                          (case modalImageIndex out of
                             None \<Rightarrow> None
                           | Some prev \<Rightarrow> Some (prev - 1))\<rparr>)
         else (s', out))"

definition index_in_range :: "App \<Rightarrow> OutputArea \<Rightarrow> bool" where
  "index_in_range s out =
     (case modalImageIndex out of
        None \<Rightarrow> True
      | Some k \<Rightarrow> 0 \<le> k \<and> k < int (length (generatedImages s)))"

section \<open>The request list as the specification words it\<close>

text \<open>
  Split on line breaks, trim each line, discard the empty ones: lines are cut at LF in
  one pass over the text, and trimming removes leading and trailing white space.
\<close>

fun cut_lines :: "string \<Rightarrow> string \<Rightarrow> string list" where
  "cut_lines cur [] = [rev cur]"
| "cut_lines cur (c # cs) =
     (if c = LF then rev cur # cut_lines [] cs else cut_lines (c # cur) cs)"

fun strip_right :: "string \<Rightarrow> string" where
  "strip_right [] = []"
| "strip_right (c # cs) =
     (let r = strip_right cs in if r = [] \<and> is_js_space c then [] else c # r)"

definition strip :: "string \<Rightarrow> string" where
  "strip l = strip_right (dropWhile is_js_space l)"

definition spec_request_list :: "string \<Rightarrow> string list" where
  "spec_request_list v = [strip l. l \<leftarrow> cut_lines [] v, strip l \<noteq> []]"

section \<open>Auxiliary definitions for the proofs\<close>

text \<open>
  The images a run over the prompts \<open>ps\<close>, started at index \<open>i\<close>, has pushed when it
  ends: those of the calls before the first rejected one.
\<close>

fun produced ::
  "client \<Rightarrow> clock \<Rightarrow> App \<Rightarrow> BaseImage \<Rightarrow> nat \<Rightarrow> string list \<Rightarrow> GeneratedImage list" where
  "produced gen now c b i [] = []"
| "produced gen now c b i (p # ps) =
     (case gen i (generateVariation_args c b p) of
        Some r \<Rightarrow> newImage now i p r # produced gen now c b (i + 1) ps
      | None \<Rightarrow> [])"

text \<open>Reading a decimal numeral back, to show that \<open>toString\<close> is injective.\<close>

definition fromString :: "string \<Rightarrow> nat" where
  "fromString cs = foldl (\<lambda>n c. 10 * n + (of_char c - 48)) 0 cs"

text \<open>The state a settled promise leaves.\<close>

definition final_state :: "completion \<Rightarrow> App" where
  "final_state c = (case c of Resolved s \<Rightarrow> s | Rejected s \<Rightarrow> s)"

subsection \<open>Sample inputs\<close>

definition demo_base :: BaseImage where
  "demo_base = \<lparr>file' = \<lparr>name = ''robot.png'', type = ''image/png''\<rparr>,
                 base64 = ''data:image/png;base64,QUJD''\<rparr>"

definition demo_app :: "string \<Rightarrow> App" where
  "demo_app v =
     \<lparr>baseImage = Some demo_base, variations = v,
      primaryColor = ''#4F46E5'', secondaryColor = ''#10B981'', useStrictPalette = True,
      consistencyLocks = \<lparr>headAndFaceShape = True, eyesStyle = True, mouthStyle = True,
                           outlineThickness = True, shadingStyle = True\<rparr>,
      promptTuning = \<lparr>expressionIntensity = 50, propSize = 50\<rparr>,
      generatedImages = [], generatedImages_ref = 0, isLoading = False, progress = None,
      error = None, presets = INITIAL_PRESETS, savePresetsConfirmation = None\<rparr>"

text \<open>\<^verbatim>\<open>"happy grin\n\nwinking"\<close>, with a blank middle line.\<close>

definition two_lines :: string where
  "two_lines = ''happy grin'' @ [LF, LF] @ ''winking''"

definition three_lines :: string where
  "three_lines = ''shocked'' @ [LF] @ ''  winking '' @ [LF] @ ''reading a book''"

definition always_ok :: client where
  "always_ok k p = Some ''QUJD''"

definition second_fails :: client where
  "second_fails k p = (if k = 1 then None else Some ''QUJD'')"

definition demo_clock :: clock where
  "demo_clock k = 1000 + k"

definition thirty_one_lines :: string where
  "thirty_one_lines = concat (replicate 31 (''wave'' @ [LF]))"

text \<open>\<^verbatim>\<open>"dancing\nwinking\ndancing"\<close>: one phrase that is not a preset, entered twice.\<close>

definition new_phrase_lines :: string where
  "new_phrase_lines = ''dancing'' @ [LF] @ ''winking'' @ [LF] @ ''dancing''"

definition demo_images :: "GeneratedImage list" where
  "demo_images =
     [\<lparr>id' = ''1000-0'', prompt = ''shocked'', base64 = ''data:image/png;base64,QUJD''\<rparr>,
      \<lparr>id' = ''1001-1'', prompt = ''winking'', base64 = ''data:image/png;base64,REVG''\<rparr>]"

definition demo_gallery :: App where
  "demo_gallery = (demo_app three_lines)\<lparr>generatedImages := demo_images, generatedImages_ref := 3\<rparr>"

definition demo_atob :: "string \<Rightarrow> string option" where
  "demo_atob x = Some x"

text \<open>The browser state after the selection effect ran for \<open>demo_gallery\<close>, with the
  detail view open on the last image.\<close>

definition demo_output :: OutputArea where
  "demo_output = \<lparr>selectedImages = {''1000-0'', ''1001-1''}, modalImageIndex = Some 1,
                   effect_dep = Some 3\<rparr>"

definition single_gallery :: App where
  "single_gallery = (demo_app three_lines)\<lparr>generatedImages := [hd demo_images], generatedImages_ref := 5\<rparr>"

definition single_output :: OutputArea where
  "single_output = \<lparr>selectedImages = {''1000-0''}, modalImageIndex = Some 0, effect_dep = Some 5\<rparr>"

definition fresh_output :: OutputArea where
  "fresh_output = \<lparr>selectedImages = {}, modalImageIndex = None, effect_dep = Some 0\<rparr>"

text \<open>The state in which the confirmation dialog is open, after Generate was clicked on
  \<open>new_phrase_lines\<close>.\<close>

definition dialog_open :: App where
  "dialog_open = fst (handleGenerate always_ok demo_clock (demo_app new_phrase_lines))"

section \<open>Lemmas on the setters and the generation loop\<close>

lemma setters_simps [simp]:
  "generatedImages (setProgress pr s) = generatedImages s"
  "generatedImages (setIsLoading l s) = generatedImages s"
  "generatedImages (setError e s) = generatedImages s"
  "generatedImages (setGeneratedImages imgs s) = imgs"
  "generatedImages_ref (setProgress pr s) = generatedImages_ref s"
  "generatedImages_ref (setIsLoading l s) = generatedImages_ref s"
  "generatedImages_ref (setError e s) = generatedImages_ref s"
  "generatedImages_ref (setGeneratedImages imgs s) = Suc (generatedImages_ref s)"
  "error (setProgress pr s) = error s"
  "error (setIsLoading l s) = error s"
  "error (setError e s) = e"
  "error (setGeneratedImages imgs s) = error s"
  "progress (setProgress pr s) = pr"
  "progress (setIsLoading l s) = progress s"
  "progress (setError e s) = progress s"
  "progress (setGeneratedImages imgs s) = progress s"
  "isLoading (setProgress pr s) = isLoading s"
  "isLoading (setIsLoading l s) = l"
  "isLoading (setError e s) = isLoading s"
  "isLoading (setGeneratedImages imgs s) = isLoading s"
  by (simp_all add: setProgress_def setIsLoading_def setError_def setGeneratedImages_def)

lemma loop_images:
  "generatedImages s = acc \<Longrightarrow>
   generatedImages (fst (generation_loop gen now c b n i ps acc s calls)) =
     acc @ produced gen now c b i ps"
  by (induction ps arbitrary: i acc s calls) (auto simp: Let_def split: option.splits)

lemma loop_calls:
  "snd (generation_loop gen now c b n i ps acc s calls) =
     calls @ map (generateVariation_args c b) (take (Suc (length (produced gen now c b i ps))) ps)"
  by (induction ps arbitrary: i acc s calls) (auto simp: Let_def split: option.splits)

lemma loop_progress:
  "progress (fst (generation_loop gen now c b n i ps acc s calls)) = None"
  by (induction ps arbitrary: i acc s calls) (auto simp: Let_def split: option.splits)

lemma loop_isLoading:
  "isLoading (fst (generation_loop gen now c b n i ps acc s calls)) = False"
  by (induction ps arbitrary: i acc s calls) (auto simp: Let_def split: option.splits)

lemma loop_error:
  "error (fst (generation_loop gen now c b n i ps acc s calls)) =
     (if length (produced gen now c b i ps) < length ps
      then Some (generation_error (ps ! length (produced gen now c b i ps)))
      else error s)"
  by (induction ps arbitrary: i acc s calls) (auto simp: Let_def split: option.splits)

lemma loop_ref:
  "generatedImages_ref s \<le> generatedImages_ref (fst (generation_loop gen now c b n i ps acc s calls))"
proof (induction ps arbitrary: i acc s calls)
  case Nil
  then show ?case by simp
next
  case (Cons p ps)
  show ?case
  proof (cases "gen i (generateVariation_args c b p)")
    case None
    then show ?thesis by (simp add: Let_def)
  next
    case (Some r)
    have "Suc (generatedImages_ref s) \<le> generatedImages_ref (fst (generation_loop gen now c b n (i + 1) ps
              (acc @ [newImage now i p r])
              (setGeneratedImages (acc @ [newImage now i p r])
                 (setProgress (Some \<lparr>current = i + 1, total = n\<rparr>) s))
              (calls @ [generateVariation_args c b p])))"
      using Cons.IH[of "setGeneratedImages (acc @ [newImage now i p r])
                 (setProgress (Some \<lparr>current = i + 1, total = n\<rparr>) s)"] by simp
    then show ?thesis using Some by (simp add: Let_def)
  qed
qed

lemma produced_length_le: "length (produced gen now c b i ps) \<le> length ps"
  by (induction ps arbitrary: i) (auto split: option.splits)

lemma produced_nth:
  "j < length (produced gen now c b i ps) \<Longrightarrow>
   gen (i + j) (generateVariation_args c b (ps ! j)) \<noteq> None \<and>
   produced gen now c b i ps ! j =
     newImage now (i + j) (ps ! j) (the (gen (i + j) (generateVariation_args c b (ps ! j))))"
proof (induction ps arbitrary: i j)
  case Nil
  then show ?case by simp
next
  case (Cons p ps)
  show ?case
  proof (cases "gen i (generateVariation_args c b p)")
    case None
    with Cons.prems show ?thesis by simp
  next
    case (Some r)
    show ?thesis
    proof (cases j)
      case 0
      with Some show ?thesis by simp
    next
      case (Suc j')
      with Cons.prems Some have "j' < length (produced gen now c b (Suc i) ps)" by simp
      from Cons.IH[OF this] Some Suc show ?thesis by simp
    qed
  qed
qed

lemma produced_stop:
  "length (produced gen now c b i ps) < length ps \<Longrightarrow>
   gen (i + length (produced gen now c b i ps))
     (generateVariation_args c b (ps ! length (produced gen now c b i ps))) = None"
proof (induction ps arbitrary: i)
  case Nil
  then show ?case by simp
next
  case (Cons p ps)
  show ?case
  proof (cases "gen i (generateVariation_args c b p)")
    case None
    then show ?thesis by simp
  next
    case (Some r)
    with Cons.prems have "length (produced gen now c b (Suc i) ps) < length ps" by simp
    from Cons.IH[OF this] Some show ?thesis by simp
  qed
qed

lemma produced_all:
  assumes "\<forall>k<length ps. gen (i + k) (generateVariation_args c b (ps ! k)) \<noteq> None"
  shows "length (produced gen now c b i ps) = length ps"
proof (rule ccontr)
  assume "length (produced gen now c b i ps) \<noteq> length ps"
  with produced_length_le[of gen now c b i ps]
  have lt: "length (produced gen now c b i ps) < length ps" by simp
  from produced_stop[OF lt] assms lt show False by blast
qed

lemma produced_first_failure:
  assumes k: "k < length ps"
    and fail: "gen (i + k) (generateVariation_args c b (ps ! k)) = None"
    and ok: "\<forall>j<k. gen (i + j) (generateVariation_args c b (ps ! j)) \<noteq> None"
  shows "length (produced gen now c b i ps) = k"
proof -
  let ?m = "length (produced gen now c b i ps)"
  have "\<not> k < ?m"
  proof
    assume "k < ?m"
    from produced_nth[OF this] fail show False by simp
  qed
  moreover have "\<not> ?m < k"
  proof
    assume lt: "?m < k"
    with k have "?m < length ps" by simp
    from produced_stop[OF this] ok lt show False by blast
  qed
  ultimately show ?thesis by simp
qed

section \<open>Lemmas on the request list and on executeGeneration\<close>

lemma split_nonempty: "split sep cs \<noteq> []"
  by (induction cs) (auto split: list.splits)

lemma cut_lines_split: "cut_lines cur cs = (rev cur @ hd (split LF cs)) # tl (split LF cs)"
proof (induction cs arbitrary: cur)
  case Nil
  then show ?case by simp
next
  case (Cons c cs)
  show ?case
  proof (cases "c = LF")
    case True
    then show ?thesis using Cons.IH[of "[]"] split_nonempty[of LF cs] by simp
  next
    case False
    obtain l ls where sp: "split LF cs = l # ls"
      using split_nonempty[of LF cs] by (cases "split LF cs") auto
    from False sp show ?thesis using Cons.IH[of "c # cur"] by simp
  qed
qed

lemma cut_lines_eq_split: "cut_lines [] v = split LF v"
  using cut_lines_split[of "[]" v] split_nonempty[of LF v] by simp

lemma strip_right_eq: "strip_right xs = rev (dropWhile is_js_space (rev xs))"
proof (induction xs)
  case Nil
  then show ?case by simp
next
  case (Cons c cs)
  show ?case
  proof (cases "\<forall>x\<in>set cs. is_js_space x")
    case True
    then have "dropWhile is_js_space (rev cs) = []" by simp
    with Cons.IH True show ?thesis by (simp add: Let_def dropWhile_append)
  next
    case False
    then have "dropWhile is_js_space (rev cs) \<noteq> []" by (simp add: dropWhile_eq_Nil_conv)
    with Cons.IH False show ?thesis by (auto simp add: Let_def dropWhile_append)
  qed
qed

lemma strip_eq_trim: "strip l = trim l"
  by (simp add: strip_def trim_def strip_right_eq)

lemma spec_request_list_eq: "spec_request_list v = variationPrompts v"
proof -
  have "[strip l. l \<leftarrow> xs, strip l \<noteq> []] = filter (\<lambda>p. length p > 0) (map trim xs)" for xs
    by (induction xs) (simp_all add: strip_eq_trim)
  then show ?thesis by (simp add: spec_request_list_def variationPrompts_def cut_lines_eq_split)
qed

lemma executeGeneration_unfold:
  assumes "baseImage s = Some b" and "variationPrompts (variations s) = ps" and "ps \<noteq> []"
  shows "executeGeneration gen now s =
           generation_loop gen now s b (length ps) 0 ps []
             (setProgress (Some \<lparr>current = 0, total = length ps\<rparr>)
                (setGeneratedImages [] (setError None (setIsLoading True s)))) []"
  using assms by (simp add: executeGeneration_def Let_def)

lemma executeGeneration_images:
  assumes "baseImage s = Some b" and "variationPrompts (variations s) = ps" and "ps \<noteq> []"
  shows "generatedImages (fst (executeGeneration gen now s)) = produced gen now s b 0 ps"
  unfolding executeGeneration_unfold[OF assms]
  using loop_images[of _ "[]"] by simp

lemma executeGeneration_calls:
  assumes "baseImage s = Some b" and "variationPrompts (variations s) = ps" and "ps \<noteq> []"
  shows "snd (executeGeneration gen now s) =
           map (generateVariation_args s b) (take (Suc (length (produced gen now s b 0 ps))) ps)"
  unfolding executeGeneration_unfold[OF assms] by (simp add: loop_calls)

lemma executeGeneration_error:
  assumes "baseImage s = Some b" and "variationPrompts (variations s) = ps" and "ps \<noteq> []"
  shows "error (fst (executeGeneration gen now s)) =
           (if length (produced gen now s b 0 ps) < length ps
            then Some (generation_error (ps ! length (produced gen now s b 0 ps)))
            else None)"
  unfolding executeGeneration_unfold[OF assms] by (simp add: loop_error)

lemma two_lines_prompts: "variationPrompts (variations (demo_app two_lines)) = [''happy grin'', ''winking'']"
  by (simp add: demo_app_def two_lines_def variationPrompts_def trim_def is_js_space_def LF_def)

lemma three_lines_prompts:
  "variationPrompts (variations (demo_app three_lines)) = [''shocked'', ''winking'', ''reading a book'']"
  by (simp add: demo_app_def three_lines_def variationPrompts_def trim_def is_js_space_def LF_def)

section \<open>The batch run\<close>

text \<open>
  C1. With a base image present and \<open>K \<ge> 1\<close> non-blank lines \<open>ps\<close> after split, trim
  and filter, the calls issued to the Generation Client are those for the prompts in list
  order: all \<open>K\<close> of them when every call succeeds, and those for the indices \<open>0..i\<close>
  (\<open>i + 1\<close> calls) when the first failure is at index \<open>i\<close>; nothing after index \<open>i\<close> is
  attempted. The log lists the calls in the order they are issued, each one after the
  outcome of the one before it is known. The ceiling of 30 plays no part here.
\<close>

theorem executeGeneration_call_sequence:
  assumes base: "baseImage s = Some b"
    and ps: "variationPrompts (variations s) = ps"
    and K: "1 \<le> length ps"
  shows "((\<forall>j<length ps. gen j (generateVariation_args s b (ps ! j)) \<noteq> None) \<longrightarrow>
            snd (executeGeneration gen now s) = map (generateVariation_args s b) ps \<and>
            length (snd (executeGeneration gen now s)) = length ps) \<and>
         (\<forall>i<length ps.
            gen i (generateVariation_args s b (ps ! i)) = None \<and>
            (\<forall>j<i. gen j (generateVariation_args s b (ps ! j)) \<noteq> None) \<longrightarrow>
            snd (executeGeneration gen now s) = map (generateVariation_args s b) (take (i + 1) ps) \<and>
            length (snd (executeGeneration gen now s)) = i + 1)"
proof -
  from K have ne: "ps \<noteq> []" by auto
  note calls = executeGeneration_calls[OF base ps ne, of gen now]
  have all: "snd (executeGeneration gen now s) = map (generateVariation_args s b) ps \<and>
            length (snd (executeGeneration gen now s)) = length ps"
    if "\<forall>j<length ps. gen j (generateVariation_args s b (ps ! j)) \<noteq> None"
  proof -
    from that have "length (produced gen now s b 0 ps) = length ps"
      using produced_all[of ps gen 0 s b now] by simp
    with calls show ?thesis by simp
  qed
  have first: "snd (executeGeneration gen now s) = map (generateVariation_args s b) (take (i + 1) ps) \<and>
            length (snd (executeGeneration gen now s)) = i + 1"
    if "i < length ps" and "gen i (generateVariation_args s b (ps ! i)) = None"
      and "\<forall>j<i. gen j (generateVariation_args s b (ps ! j)) \<noteq> None" for i
  proof -
    from that have "length (produced gen now s b 0 ps) = i"
      using produced_first_failure[of i ps gen 0 s b now] by simp
    with calls that(1) show ?thesis by simp
  qed
  from all first show ?thesis by blast
qed

theorem executeGeneration_call_sequence_witness:
  "baseImage (demo_app two_lines) = Some demo_base \<and>
   variationPrompts (variations (demo_app two_lines)) = [''happy grin'', ''winking''] \<and>
   snd (executeGeneration always_ok demo_clock (demo_app two_lines)) =
     map (generateVariation_args (demo_app two_lines) demo_base) [''happy grin'', ''winking''] \<and>
   variationPrompts (variations (demo_app three_lines)) =
     [''shocked'', ''winking'', ''reading a book''] \<and>
   second_fails 1 (generateVariation_args (demo_app three_lines) demo_base ''winking'') = None \<and>
   snd (executeGeneration second_fails demo_clock (demo_app three_lines)) =
     map (generateVariation_args (demo_app three_lines) demo_base) [''shocked'', ''winking'']"
proof -
  have base2: "baseImage (demo_app two_lines) = Some demo_base"
    by (simp add: demo_app_def)
  have base3: "baseImage (demo_app three_lines) = Some demo_base"
    by (simp add: demo_app_def)
  have ok: "snd (executeGeneration always_ok demo_clock (demo_app two_lines)) =
     map (generateVariation_args (demo_app two_lines) demo_base) [''happy grin'', ''winking'']"
    using executeGeneration_call_sequence[OF base2 two_lines_prompts, of always_ok demo_clock]
    by (simp add: always_ok_def)
  have fail: "snd (executeGeneration second_fails demo_clock (demo_app three_lines)) =
     map (generateVariation_args (demo_app three_lines) demo_base) [''shocked'', ''winking'']"
    using executeGeneration_call_sequence[OF base3 three_lines_prompts, of second_fails demo_clock,
        THEN conjunct2, rule_format, of 1]
    by (simp add: second_fails_def)
  show ?thesis
    using base2 two_lines_prompts three_lines_prompts ok fail by (simp add: second_fails_def)
qed

lemma sublist_generation_error: "sublist p (generation_error p)"
  unfolding generation_error_def sublist_def
  by (rule exI[of _ "''Failed to generate variation for: '' @ [DQUOTE]"],
      rule exI[of _ "[DQUOTE] @ ''. Please try again.''"]) simp

lemma executeGeneration_settled:
  assumes "baseImage s = Some b" and "variationPrompts (variations s) = ps" and "ps \<noteq> []"
  shows "progress (fst (executeGeneration gen now s)) = None"
    and "isLoading (fst (executeGeneration gen now s)) = False"
  unfolding executeGeneration_unfold[OF assms] by (simp_all add: loop_progress loop_isLoading)

lemma produced_eq_map:
  assumes "length (produced gen now c b 0 ps) = m"
  shows "produced gen now c b 0 ps =
           map (\<lambda>j. newImage now j (ps ! j) (the (gen j (generateVariation_args c b (ps ! j))))) [0..<m]"
proof (rule nth_equalityI)
  show "length (produced gen now c b 0 ps) = length (map (\<lambda>j. newImage now j (ps ! j) (the (gen j (generateVariation_args c b (ps ! j))))) [0..<m])"
    using assms by simp
next
  fix j assume "j < length (produced gen now c b 0 ps)"
  with produced_nth[of j gen now c b 0 ps] assms
  show "produced gen now c b 0 ps ! j =
          map (\<lambda>j. newImage now j (ps ! j) (the (gen j (generateVariation_args c b (ps ! j))))) [0..<m] ! j"
    by simp
qed

text \<open>
  C2. When the call for the prompt at index \<open>i\<close> is the first to fail, the run ends
  there: the error message set is the one built around that prompt's text (which it
  contains), the progress state is cleared and the loading flag is off, the collection
  holds exactly the images of the calls \<open>0..i-1\<close> of this run, as they were pushed,
  and no call after index \<open>i\<close> is in the log.
\<close>

theorem executeGeneration_abort_on_failure:
  assumes base: "baseImage s = Some b"
    and ps: "variationPrompts (variations s) = ps"
    and i: "i < length ps"
    and fail: "gen i (generateVariation_args s b (ps ! i)) = None"
    and ok: "\<forall>j<i. gen j (generateVariation_args s b (ps ! j)) \<noteq> None"
  shows "error (fst (executeGeneration gen now s)) = Some (generation_error (ps ! i)) \<and>
         sublist (ps ! i) (generation_error (ps ! i)) \<and>
         progress (fst (executeGeneration gen now s)) = None \<and>
         isLoading (fst (executeGeneration gen now s)) = False \<and>
         generatedImages (fst (executeGeneration gen now s)) =
           map (\<lambda>j. newImage now j (ps ! j) (the (gen j (generateVariation_args s b (ps ! j)))))
             [0..<i] \<and>
         snd (executeGeneration gen now s) = map (generateVariation_args s b) (take (i + 1) ps)"
proof -
  from i have ne: "ps \<noteq> []" by auto
  have len: "length (produced gen now s b 0 ps) = i"
    using produced_first_failure[of i ps gen 0 s b now] i fail ok by simp
  have "error (fst (executeGeneration gen now s)) = Some (generation_error (ps ! i))"
    using executeGeneration_error[OF base ps ne, of gen now] len i by simp
  moreover have "generatedImages (fst (executeGeneration gen now s)) =
           map (\<lambda>j. newImage now j (ps ! j) (the (gen j (generateVariation_args s b (ps ! j)))))
             [0..<i]"
    using executeGeneration_images[OF base ps ne, of gen now] produced_eq_map[OF len] by simp
  moreover have "snd (executeGeneration gen now s) = map (generateVariation_args s b) (take (i + 1) ps)"
    using executeGeneration_calls[OF base ps ne, of gen now] len by simp
  ultimately show ?thesis
    using executeGeneration_settled[OF base ps ne, of gen now] sublist_generation_error by simp
qed

theorem executeGeneration_abort_on_failure_witness:
  "baseImage (demo_app three_lines) = Some demo_base \<and>
   variationPrompts (variations (demo_app three_lines)) =
     [''shocked'', ''winking'', ''reading a book''] \<and>
   second_fails 1 (generateVariation_args (demo_app three_lines) demo_base ''winking'') = None \<and>
   second_fails 0 (generateVariation_args (demo_app three_lines) demo_base ''shocked'') \<noteq> None \<and>
   error (fst (executeGeneration second_fails demo_clock (demo_app three_lines))) =
     Some (''Failed to generate variation for: '' @ [DQUOTE] @ ''winking'' @ [DQUOTE] @
           ''. Please try again.'') \<and>
   progress (fst (executeGeneration second_fails demo_clock (demo_app three_lines))) = None \<and>
   generatedImages (fst (executeGeneration second_fails demo_clock (demo_app three_lines))) =
     [newImage demo_clock 0 ''shocked'' ''QUJD''] \<and>
   map gv_prompt (snd (executeGeneration second_fails demo_clock (demo_app three_lines))) =
     [''shocked'', ''winking'']"
proof -
  have base: "baseImage (demo_app three_lines) = Some demo_base"
    by (simp add: demo_app_def)
  have i: "1 < length [''shocked'', ''winking'', ''reading a book'']" by simp
  have fail: "second_fails 1 (generateVariation_args (demo_app three_lines) demo_base
                ([''shocked'', ''winking'', ''reading a book''] ! 1)) = None"
    by (simp add: second_fails_def)
  have ok: "\<forall>j<1. second_fails j (generateVariation_args (demo_app three_lines) demo_base
                ([''shocked'', ''winking'', ''reading a book''] ! j)) \<noteq> None"
    by (simp add: second_fails_def)
  note run = executeGeneration_abort_on_failure[where gen = second_fails and now = demo_clock
      and i = 1, OF base three_lines_prompts i fail ok]
  from run base three_lines_prompts show ?thesis
    by (simp add: second_fails_def generation_error_def generateVariation_args_def)
qed

text \<open>
  C3. The request list the code computes is the input split on line breaks, each line
  trimmed, empty lines discarded (\<open>spec_request_list\<close>); and after a run over
  \<open>K \<ge> 1\<close> requests in which every call succeeds, the collection has \<open>K\<close> entries
  and the prompt of the \<open>i\<close>-th entry is the \<open>i\<close>-th request. This holds for every
  \<open>K\<close>, so also for \<open>K \<le> 30\<close>.
\<close>

theorem successful_run_matches_request_list:
  assumes base: "baseImage s = Some b"
    and ps: "variationPrompts (variations s) = ps"
    and K: "1 \<le> length ps"
    and ok: "\<forall>j<length ps. gen j (generateVariation_args s b (ps ! j)) \<noteq> None"
  shows "variationPrompts v = spec_request_list v \<and>
         length (generatedImages (fst (executeGeneration gen now s))) = length ps \<and>
         (\<forall>i<length ps. prompt (generatedImages (fst (executeGeneration gen now s)) ! i) = ps ! i)"
proof -
  from K have ne: "ps \<noteq> []" by auto
  have len: "length (produced gen now s b 0 ps) = length ps"
    using produced_all[of ps gen 0 s b now] ok by simp
  have imgs: "generatedImages (fst (executeGeneration gen now s)) = produced gen now s b 0 ps"
    by (rule executeGeneration_images[OF base ps ne])
  have "prompt (produced gen now s b 0 ps ! i) = ps ! i" if "i < length ps" for i
    using produced_nth[of i gen now s b 0 ps] that len by (simp add: newImage_def)
  with imgs len show ?thesis by (simp add: spec_request_list_eq)
qed

theorem successful_run_matches_request_list_witness:
  "baseImage (demo_app two_lines) = Some demo_base \<and>
   variationPrompts (variations (demo_app two_lines)) = [''happy grin'', ''winking''] \<and>
   spec_request_list two_lines = [''happy grin'', ''winking''] \<and>
   length (generatedImages (fst (executeGeneration always_ok demo_clock (demo_app two_lines)))) = 2 \<and>
   prompt (generatedImages (fst (executeGeneration always_ok demo_clock (demo_app two_lines))) ! 0)
     = ''happy grin'' \<and>
   prompt (generatedImages (fst (executeGeneration always_ok demo_clock (demo_app two_lines))) ! 1)
     = ''winking''"
proof -
  have base: "baseImage (demo_app two_lines) = Some demo_base"
    by (simp add: demo_app_def)
  have K: "1 \<le> length [''happy grin'', ''winking'']" by simp
  have ok: "\<forall>j<length [''happy grin'', ''winking''].
              always_ok j (generateVariation_args (demo_app two_lines) demo_base
                ([''happy grin'', ''winking''] ! j)) \<noteq> None"
    by (simp add: always_ok_def)
  note run = successful_run_matches_request_list[where gen = always_ok and now = demo_clock
      and v = two_lines, OF base two_lines_prompts K ok]
  have v: "variationPrompts two_lines = [''happy grin'', ''winking'']"
    using two_lines_prompts by (simp add: demo_app_def)
  from run v have spec: "spec_request_list two_lines = [''happy grin'', ''winking'']"
    by simp
  from run have len:
    "length (generatedImages (fst (executeGeneration always_ok demo_clock (demo_app two_lines)))) = 2"
    by simp
  from run have nth: "\<forall>i<length [''happy grin'', ''winking''].
      prompt (generatedImages (fst (executeGeneration always_ok demo_clock (demo_app two_lines))) ! i)
        = [''happy grin'', ''winking''] ! i"
    by blast
  from nth[rule_format, of 0] nth[rule_format, of 1] base two_lines_prompts spec len
  show ?thesis by simp
qed

lemma thirty_one: "length (variationPrompts (variations (demo_app thirty_one_lines))) = 31"
  by code_simp

lemma blank_prompts: "variationPrompts (variations (demo_app ('' '' @ [LF] @ ''  ''))) = []"
  by (simp add: demo_app_def variationPrompts_def trim_def is_js_space_def LF_def)

section \<open>Validation and the preset confirmation\<close>

text \<open>
  The checks come before any call, in this order. Without a base image
  \<^verbatim>\<open>handleGenerate\<close> (and \<^verbatim>\<open>executeGeneration\<close>) only sets the no-base-image
  message; with a base image and an empty request list it only sets the no-variations
  message; with a base image and more than 30 requests \<^verbatim>\<open>handleGenerate\<close> only sets
  the batch-too-large message. In these cases the log of calls to the Generation Client
  is empty and no other state variable changes. \<^verbatim>\<open>executeGeneration\<close> has the first
  two checks and no ceiling.
\<close>

lemma validation_checks:
  "(baseImage s = None \<longrightarrow>
      handleGenerate gen now s = (setError (Some ''Please upload a base image first.'') s, []) \<and>
      executeGeneration gen now s = (setError (Some ''Please upload a base image first.'') s, [])) \<and>
   (baseImage s \<noteq> None \<and> variationPrompts (variations s) = [] \<longrightarrow>
      handleGenerate gen now s =
        (setError (Some ''Please enter at least one variation prompt.'') s, []) \<and>
      executeGeneration gen now s =
        (setError (Some ''Please enter at least one variation prompt.'') s, [])) \<and>
   (baseImage s \<noteq> None \<and> length (variationPrompts (variations s)) > 30 \<longrightarrow>
      handleGenerate gen now s =
        (setError (Some ''Batch mode supports up to 30 variations per run.'') s, []))"
  by (auto simp: handleGenerate_def executeGeneration_def Let_def split: option.splits)

lemma validation_checks_example:
  "baseImage ((demo_app two_lines)\<lparr>baseImage := None\<rparr>) = None \<and>
   handleGenerate always_ok demo_clock ((demo_app two_lines)\<lparr>baseImage := None\<rparr>) =
     (setError (Some ''Please upload a base image first.'')
        ((demo_app two_lines)\<lparr>baseImage := None\<rparr>), []) \<and>
   baseImage (demo_app ('' '' @ [LF] @ ''  '')) \<noteq> None \<and>
   variationPrompts (variations (demo_app ('' '' @ [LF] @ ''  ''))) = [] \<and>
   handleGenerate always_ok demo_clock (demo_app ('' '' @ [LF] @ ''  '')) =
     (setError (Some ''Please enter at least one variation prompt.'')
        (demo_app ('' '' @ [LF] @ ''  '')), []) \<and>
   baseImage (demo_app thirty_one_lines) \<noteq> None \<and>
   length (variationPrompts (variations (demo_app thirty_one_lines))) = 31 \<and>
   handleGenerate always_ok demo_clock (demo_app thirty_one_lines) =
     (setError (Some ''Batch mode supports up to 30 variations per run.'')
        (demo_app thirty_one_lines), [])"
proof -
  have b1: "baseImage ((demo_app two_lines)\<lparr>baseImage := None\<rparr>) = None" by simp
  have b2: "baseImage (demo_app ('' '' @ [LF] @ ''  '')) \<noteq> None" by (simp add: demo_app_def)
  have b3: "baseImage (demo_app thirty_one_lines) \<noteq> None" by (simp add: demo_app_def)
  have c1: "handleGenerate always_ok demo_clock ((demo_app two_lines)\<lparr>baseImage := None\<rparr>) =
     (setError (Some ''Please upload a base image first.'')
        ((demo_app two_lines)\<lparr>baseImage := None\<rparr>), [])"
    using validation_checks[of "(demo_app two_lines)\<lparr>baseImage := None\<rparr>"
        always_ok demo_clock] b1 by blast
  have c2: "handleGenerate always_ok demo_clock (demo_app ('' '' @ [LF] @ ''  '')) =
     (setError (Some ''Please enter at least one variation prompt.'')
        (demo_app ('' '' @ [LF] @ ''  '')), [])"
    using validation_checks[of "demo_app ('' '' @ [LF] @ ''  '')"
        always_ok demo_clock] b2 blank_prompts by blast
  have c3: "handleGenerate always_ok demo_clock (demo_app thirty_one_lines) =
     (setError (Some ''Batch mode supports up to 30 variations per run.'')
        (demo_app thirty_one_lines), [])"
    using validation_checks[of "demo_app thirty_one_lines"
        always_ok demo_clock] b3 thirty_one by simp
  from b1 b2 b3 c1 c2 c3 blank_prompts thirty_one show ?thesis by blast
qed

text \<open>
  A state update that commutes with the four setters of the run and leaves alone what
  the run reads passes through \<open>executeGeneration\<close> unchanged.
\<close>

lemma generation_loop_frame:
  assumes "\<And>x s. f (setProgress x s) = setProgress x (f s)"
    and "\<And>x s. f (setIsLoading x s) = setIsLoading x (f s)"
    and "\<And>x s. f (setError x s) = setError x (f s)"
    and "\<And>x s. f (setGeneratedImages x s) = setGeneratedImages x (f s)"
    and "\<And>p. generateVariation_args (f c) b p = generateVariation_args c b p"
  shows "generation_loop gen now (f c) b n i ps acc (f s) calls =
           apfst f (generation_loop gen now c b n i ps acc s calls)"
proof (induction ps arbitrary: i acc s calls)
  case Nil
  then show ?case by (simp add: assms)
next
  case (Cons p ps)
  show ?case
  proof (cases "gen i (generateVariation_args c b p)")
    case None
    then show ?thesis by (simp add: assms Let_def)
  next
    case (Some r)
    then show ?thesis
      using Cons.IH[of "Suc i" "acc @ [newImage now i p r]"
          "setGeneratedImages (acc @ [newImage now i p r])
             (setProgress (Some \<lparr>current = Suc i, total = n\<rparr>) s)"
          "calls @ [generateVariation_args c b p]"]
      by (simp add: assms Let_def)
  qed
qed

lemma executeGeneration_frame:
  assumes "\<And>x s. f (setProgress x s) = setProgress x (f s)"
    and "\<And>x s. f (setIsLoading x s) = setIsLoading x (f s)"
    and "\<And>x s. f (setError x s) = setError x (f s)"
    and "\<And>x s. f (setGeneratedImages x s) = setGeneratedImages x (f s)"
    and "\<And>b p. generateVariation_args (f s) b p = generateVariation_args s b p"
    and "baseImage (f s) = baseImage s"
    and "variations (f s) = variations s"
  shows "executeGeneration gen now (f s) = apfst f (executeGeneration gen now s)"
proof (cases "baseImage s")
  case None
  then show ?thesis using assms(6) by (simp add: executeGeneration_def assms(3))
next
  case (Some b)
  show ?thesis
  proof (cases "variationPrompts (variations s) = []")
    case True
    with Some show ?thesis using assms(6,7) by (simp add: executeGeneration_def assms(3))
  next
    case False
    have "generation_loop gen now (f s) b n 0 ps []
            (setProgress x (setGeneratedImages [] (setError None (setIsLoading True (f s))))) [] =
          apfst f (generation_loop gen now s b n 0 ps []
            (setProgress x (setGeneratedImages [] (setError None (setIsLoading True s)))) [])"
      for n ps x
      using generation_loop_frame[of f s b gen now n 0 ps "[]"
          "setProgress x (setGeneratedImages [] (setError None (setIsLoading True s)))" "[]"]
      by (simp add: assms(1-5))
    with Some False show ?thesis using assms(6,7) by (simp add: executeGeneration_def Let_def)
  qed
qed

lemma executeGeneration_presets:
  "executeGeneration gen now (s\<lparr>presets := P\<rparr>) =
     apfst (\<lambda>s. s\<lparr>presets := P\<rparr>) (executeGeneration gen now s)"
  by (rule executeGeneration_frame[where f = "\<lambda>s. s\<lparr>presets := P\<rparr>"])
     (simp_all add: setProgress_def setIsLoading_def setError_def setGeneratedImages_def
        generateVariation_args_def)

lemma executeGeneration_savePresetsConfirmation:
  "executeGeneration gen now (s\<lparr>savePresetsConfirmation := Q\<rparr>) =
     apfst (\<lambda>s. s\<lparr>savePresetsConfirmation := Q\<rparr>) (executeGeneration gen now s)"
  by (rule executeGeneration_frame[where f = "\<lambda>s. s\<lparr>savePresetsConfirmation := Q\<rparr>"])
     (simp_all add: setProgress_def setIsLoading_def setError_def setGeneratedImages_def
        generateVariation_args_def)

lemma generation_loop_variations:
  "variations (fst (generation_loop gen now c b n i ps acc s calls)) = variations s"
  by (induction ps arbitrary: i acc s calls)
     (auto simp: Let_def setProgress_def setIsLoading_def setError_def setGeneratedImages_def
        split: option.splits)

lemma executeGeneration_variations:
  "variations (fst (executeGeneration gen now s)) = variations s"
  by (auto simp: executeGeneration_def Let_def generation_loop_variations
        setProgress_def setIsLoading_def setError_def setGeneratedImages_def
      split: option.splits)

text \<open>
  C6. When the request list of a valid submission (base image present, 1 to 30
  requests) holds phrases \<open>nv\<close> that are not presets, \<^verbatim>\<open>handleGenerate\<close> only
  records them for the dialog and issues no call; the variation text is untouched.
  From that state, confirming and declining issue the same calls, with the same
  prompts in the same order and the same style constraints, namely those of a run
  started without the dialog (a prefix of the request list, cut only by a failure). The
  two final states are equal except for the preset list, which confirming extends by
  the new phrases and declining leaves as it was.
\<close>

theorem confirmation_answers_agree:
  assumes base: "baseImage s = Some b"
    and ps: "variationPrompts (variations s) = ps"
    and K: "1 \<le> length ps" "length ps \<le> 30"
    and nv: "nv = set_spread (filter (\<lambda>v. v \<notin> set (presets s)) ps)"
    and new: "nv \<noteq> []"
    and g: "g = s\<lparr>savePresetsConfirmation := Some nv\<rparr>"
  shows "handleGenerate gen now s = (g, []) \<and>
         variations g = variations s \<and>
         snd (handleConfirmSavePresets gen now g) = snd (handleDeclineSavePresets gen now g) \<and>
         snd (handleDeclineSavePresets gen now g) = snd (executeGeneration gen now s) \<and>
         prefix (snd (handleDeclineSavePresets gen now g)) (map (generateVariation_args s b) ps) \<and>
         fst (handleConfirmSavePresets gen now g) =
           (fst (handleDeclineSavePresets gen now g))\<lparr>presets := set_spread (presets s @ nv)\<rparr> \<and>
         presets (fst (handleDeclineSavePresets gen now g)) = presets s \<and>
         variations (fst (handleConfirmSavePresets gen now g)) = variations s \<and>
         variations (fst (handleDeclineSavePresets gen now g)) = variations s"
proof -
  from K have ne: "ps \<noteq> []" by auto
  have paused: "handleGenerate gen now s = (g, [])"
    using base ps ne K(2) nv new g by (simp add: handleGenerate_def Let_def)
  have decl: "handleDeclineSavePresets gen now g =
      apfst (\<lambda>s. s\<lparr>savePresetsConfirmation := None\<rparr>) (executeGeneration gen now s)"
    unfolding handleDeclineSavePresets_def g
    using executeGeneration_savePresetsConfirmation[where s = s and Q = None and gen = gen and now = now]
    by simp
  have conf: "handleConfirmSavePresets gen now g =
      apfst (\<lambda>x. x\<lparr>presets := set_spread (presets s @ nv)\<rparr>)
        (handleDeclineSavePresets gen now g)"
  proof -
    have "handleConfirmSavePresets gen now g =
        executeGeneration gen now
          ((s\<lparr>savePresetsConfirmation := None\<rparr>)\<lparr>presets := set_spread (presets s @ nv)\<rparr>)"
    proof -
      have "s\<lparr>presets := P, savePresetsConfirmation := None\<rparr> =
            s\<lparr>savePresetsConfirmation := None, presets := P\<rparr>" for P
        by (cases s) simp
      moreover have "handleConfirmSavePresets gen now g =
        executeGeneration gen now
          (s\<lparr>presets := set_spread (presets s @ nv), savePresetsConfirmation := None\<rparr>)"
        unfolding handleConfirmSavePresets_def g by (simp add: Let_def)
      ultimately show ?thesis by (simp only:)
    qed
    also have "\<dots> = apfst (\<lambda>x. x\<lparr>presets := set_spread (presets s @ nv)\<rparr>)
        (executeGeneration gen now (s\<lparr>savePresetsConfirmation := None\<rparr>))"
      by (rule executeGeneration_presets)
    finally show ?thesis unfolding handleDeclineSavePresets_def g by simp
  qed
  have pres: "presets (fst (executeGeneration gen now s)) = presets s"
  proof -
    have "s\<lparr>presets := presets s\<rparr> = s" by simp
    then have "executeGeneration gen now s =
        apfst (\<lambda>x. x\<lparr>presets := presets s\<rparr>) (executeGeneration gen now s)"
      using executeGeneration_presets[where s = s and P = "presets s" and gen = gen and now = now]
      by simp
    then have "fst (executeGeneration gen now s) =
        (fst (executeGeneration gen now s))\<lparr>presets := presets s\<rparr>"
      by (metis fst_apfst)
    then have "presets (fst (executeGeneration gen now s)) =
        presets ((fst (executeGeneration gen now s))\<lparr>presets := presets s\<rparr>)"
      by simp
    then show ?thesis by simp
  qed
  have pre: "prefix (snd (executeGeneration gen now s)) (map (generateVariation_args s b) ps)"
    unfolding executeGeneration_calls[OF base ps ne]
    by (rule map_mono_prefix) (rule take_is_prefix)
  show ?thesis
    using paused decl conf pres pre executeGeneration_variations[of gen now s] g
    by (simp add: apfst_def map_prod_def split_beta)
qed

lemma new_phrase_prompts:
  "variationPrompts (variations (demo_app new_phrase_lines)) = [''dancing'', ''winking'', ''dancing'']"
  by (simp add: demo_app_def new_phrase_lines_def variationPrompts_def trim_def is_js_space_def
      LF_def)

lemma new_phrase_diff:
  "set_spread (filter (\<lambda>v. v \<notin> set (presets (demo_app new_phrase_lines)))
     [''dancing'', ''winking'', ''dancing'']) = [''dancing'']"
  by (simp add: demo_app_def INITIAL_PRESETS_def set_spread_def)

theorem confirmation_answers_agree_witness:
  "baseImage (demo_app new_phrase_lines) = Some demo_base \<and>
   variationPrompts (variations (demo_app new_phrase_lines)) =
     [''dancing'', ''winking'', ''dancing''] \<and>
   set_spread (filter (\<lambda>v. v \<notin> set (presets (demo_app new_phrase_lines)))
     [''dancing'', ''winking'', ''dancing'']) = [''dancing''] \<and>
   handleGenerate always_ok demo_clock (demo_app new_phrase_lines) =
     ((demo_app new_phrase_lines)\<lparr>savePresetsConfirmation := Some [''dancing'']\<rparr>, []) \<and>
   snd (handleConfirmSavePresets always_ok demo_clock
          ((demo_app new_phrase_lines)\<lparr>savePresetsConfirmation := Some [''dancing'']\<rparr>)) =
   snd (handleDeclineSavePresets always_ok demo_clock
          ((demo_app new_phrase_lines)\<lparr>savePresetsConfirmation := Some [''dancing'']\<rparr>)) \<and>
   fst (handleConfirmSavePresets always_ok demo_clock
          ((demo_app new_phrase_lines)\<lparr>savePresetsConfirmation := Some [''dancing'']\<rparr>)) =
   (fst (handleDeclineSavePresets always_ok demo_clock
          ((demo_app new_phrase_lines)\<lparr>savePresetsConfirmation := Some [''dancing'']\<rparr>)))
     \<lparr>presets := INITIAL_PRESETS @ [''dancing'']\<rparr>"
proof -
  have base: "baseImage (demo_app new_phrase_lines) = Some demo_base"
    by (simp add: demo_app_def)
  have K: "1 \<le> length [''dancing'', ''winking'', ''dancing'']"
    "length [''dancing'', ''winking'', ''dancing''] \<le> 30" by simp_all
  have new: "[''dancing''] \<noteq> []" by simp
  have sp: "set_spread (presets (demo_app new_phrase_lines) @ [''dancing'']) =
      INITIAL_PRESETS @ [''dancing'']"
    by (simp add: demo_app_def INITIAL_PRESETS_def set_spread_def)
  note answers = confirmation_answers_agree[where gen = always_ok and now = demo_clock
      and nv = "[''dancing'']"
      and g = "(demo_app new_phrase_lines)\<lparr>savePresetsConfirmation := Some [''dancing'']\<rparr>",
      OF base new_phrase_prompts K new_phrase_diff[symmetric] new refl]
  from answers base new_phrase_prompts new_phrase_diff sp show ?thesis by simp
qed

lemma dialog_open_eq:
  "dialog_open = (demo_app new_phrase_lines)\<lparr>savePresetsConfirmation := Some [''dancing'']\<rparr>"
proof -
  have "baseImage (demo_app new_phrase_lines) = Some demo_base" by (simp add: demo_app_def)
  then show ?thesis
    unfolding dialog_open_def using new_phrase_prompts new_phrase_diff
    by (simp add: handleGenerate_def Let_def)
qed

lemma always_ok_produced:
  "length (produced always_ok now c b i ps) = length ps"
  by (rule produced_all) (simp add: always_ok_def)

lemma run_without_ceiling:
  assumes "baseImage s = Some b" and "variationPrompts (variations s) = ps" and "ps \<noteq> []"
  shows "length (snd (executeGeneration always_ok now s)) = length ps"
    and "length (generatedImages (fst (executeGeneration always_ok now s))) = length ps"
    and "error (fst (executeGeneration always_ok now s)) = None"
  using executeGeneration_calls[OF assms, of always_ok now]
    executeGeneration_images[OF assms, of always_ok now]
    executeGeneration_error[OF assms, of always_ok now]
  by (simp_all add: always_ok_produced)

text \<open>
  C4. The checks for a missing base image and for an empty request list are made before
  any call, by \<^verbatim>\<open>handleGenerate\<close> and again by \<^verbatim>\<open>executeGeneration\<close>
  (\<open>validation_checks\<close>). The ceiling of 30 is tested by \<^verbatim>\<open>handleGenerate\<close> alone.
  Both answers of the confirmation dialog call \<^verbatim>\<open>executeGeneration\<close> on the variation
  text current at that time, and that function has no ceiling: when the dialog was opened
  for three lines and the text holds 31 non-blank lines when it is answered, 31 calls
  are issued, 31 images are produced and no error is set.
\<close>

theorem ceiling_missing_after_dialog:
  "savePresetsConfirmation dialog_open = Some [''dancing''] \<and>
   length (variationPrompts (variations (setVariations thirty_one_lines dialog_open))) = 31 \<and>
   length (snd (handleConfirmSavePresets always_ok demo_clock
                  (setVariations thirty_one_lines dialog_open))) = 31 \<and>
   error (fst (handleConfirmSavePresets always_ok demo_clock
                  (setVariations thirty_one_lines dialog_open))) = None \<and>
   length (snd (handleDeclineSavePresets always_ok demo_clock
                  (setVariations thirty_one_lines dialog_open))) = 31 \<and>
   error (fst (handleDeclineSavePresets always_ok demo_clock
                  (setVariations thirty_one_lines dialog_open))) = None \<and>
   length (generatedImages (fst (handleDeclineSavePresets always_ok demo_clock
                  (setVariations thirty_one_lines dialog_open)))) = 31"
proof -
  have v: "length (variationPrompts thirty_one_lines) = 31"
    using thirty_one by (simp add: demo_app_def)
  then have ne: "variationPrompts thirty_one_lines \<noteq> []" by auto
  let ?d = "(setVariations thirty_one_lines dialog_open)\<lparr>savePresetsConfirmation := None\<rparr>"
  let ?c = "(setVariations thirty_one_lines dialog_open)
              \<lparr>presets := set_spread (presets dialog_open @ [''dancing'']),
                savePresetsConfirmation := None\<rparr>"
  have bd: "baseImage ?d = Some demo_base" "variationPrompts (variations ?d) = variationPrompts thirty_one_lines"
    by (simp_all add: setVariations_def dialog_open_eq demo_app_def)
  have bc: "baseImage ?c = Some demo_base" "variationPrompts (variations ?c) = variationPrompts thirty_one_lines"
    by (simp_all add: setVariations_def dialog_open_eq demo_app_def)
  have decl: "handleDeclineSavePresets always_ok demo_clock (setVariations thirty_one_lines dialog_open)
      = executeGeneration always_ok demo_clock ?d"
    by (simp add: handleDeclineSavePresets_def)
  have conf: "handleConfirmSavePresets always_ok demo_clock (setVariations thirty_one_lines dialog_open)
      = executeGeneration always_ok demo_clock ?c"
    by (simp add: handleConfirmSavePresets_def Let_def setVariations_def dialog_open_eq)
  show ?thesis
    unfolding decl conf
    using run_without_ceiling[OF bd ne, of demo_clock] run_without_ceiling[OF bc ne, of demo_clock] v
    by (simp add: dialog_open_eq setVariations_def)
qed

section \<open>The result collection\<close>

lemma update_map_frame:
  "map id' (map (\<lambda>img. if id' img = i then img\<lparr>base64 := d\<rparr> else img) imgs) = map id' imgs"
  "map prompt (map (\<lambda>img. if id' img = i then img\<lparr>base64 := d\<rparr> else img) imgs) = map prompt imgs"
  by (induction imgs) simp_all

lemma update_map_absent:
  "i \<notin> id' ` set imgs \<Longrightarrow>
   map (\<lambda>img. if id' img = i then img\<lparr>base64 := d\<rparr> else img) imgs = imgs"
  by (induction imgs) auto

lemma deleted_id_absent: "i \<notin> id' ` set (generatedImages (handleDeleteImage i s))"
  by (auto simp: handleDeleteImage_def)

lemma find_absent: "i \<notin> id' ` set imgs \<Longrightarrow> find (\<lambda>img. id' img = i) imgs = None"
  by (induction imgs) auto

text \<open>
  C7. An in-place update keeps the length of the collection, the identifiers and the
  prompts in their order, and every entry whose identifier differs from \<open>i\<close>; an
  entry with identifier \<open>i\<close> changes in its image data alone. The successful
  completion of a background removal or of an outline is this same update, with the
  returned data behind the PNG data-URL prefix.
\<close>

theorem in_place_update_frame:
  "length (generatedImages (handleUpdateImageBase64 i d s)) = length (generatedImages s) \<and>
   map id' (generatedImages (handleUpdateImageBase64 i d s)) = map id' (generatedImages s) \<and>
   map prompt (generatedImages (handleUpdateImageBase64 i d s)) = map prompt (generatedImages s) \<and>
   (\<forall>k<length (generatedImages s).
      generatedImages (handleUpdateImageBase64 i d s) ! k =
        (if id' (generatedImages s ! k) = i
         then (generatedImages s ! k)\<lparr>base64 := d\<rparr> else generatedImages s ! k)) \<and>
   handleRemoveBackground_settle i (Some r) s =
     Resolved (handleUpdateImageBase64 i (''data:image/png;base64,'' @ r) s) \<and>
   handleAddOutline_settle i (Some r) s =
     Resolved (handleUpdateImageBase64 i (''data:image/png;base64,'' @ r) s)"
  by (simp add: handleUpdateImageBase64_def handleRemoveBackground_settle_def
      handleAddOutline_settle_def edit_settle_def update_map_frame cong: if_cong)

theorem in_place_update_frame_witness:
  "generatedImages (handleUpdateImageBase64 ''1001-1'' ''data:image/png;base64,WFla'' demo_gallery) =
     [\<lparr>id' = ''1000-0'', prompt = ''shocked'', base64 = ''data:image/png;base64,QUJD''\<rparr>,
      \<lparr>id' = ''1001-1'', prompt = ''winking'', base64 = ''data:image/png;base64,WFla''\<rparr>]"
proof -
  note frame = in_place_update_frame[of "''1001-1''" "''data:image/png;base64,WFla''" demo_gallery]
  have imgs: "generatedImages demo_gallery = demo_images" by (simp add: demo_gallery_def)
  from frame have len: "length (generatedImages
      (handleUpdateImageBase64 ''1001-1'' ''data:image/png;base64,WFla'' demo_gallery)) = 2"
    by (simp add: imgs demo_images_def)
  from frame have nth: "\<forall>k<length (generatedImages demo_gallery).
      generatedImages (handleUpdateImageBase64 ''1001-1'' ''data:image/png;base64,WFla'' demo_gallery) ! k =
        (if id' (generatedImages demo_gallery ! k) = ''1001-1''
         then (generatedImages demo_gallery ! k)\<lparr>base64 := ''data:image/png;base64,WFla''\<rparr>
         else generatedImages demo_gallery ! k)"
    by blast
  have "generatedImages (handleUpdateImageBase64 ''1001-1'' ''data:image/png;base64,WFla'' demo_gallery) ! 0
      = \<lparr>id' = ''1000-0'', prompt = ''shocked'', base64 = ''data:image/png;base64,QUJD''\<rparr>"
    using nth[rule_format, of 0] by (simp add: imgs demo_images_def)
  moreover have "generatedImages (handleUpdateImageBase64 ''1001-1'' ''data:image/png;base64,WFla'' demo_gallery) ! 1
      = \<lparr>id' = ''1001-1'', prompt = ''winking'', base64 = ''data:image/png;base64,WFla''\<rparr>"
    using nth[rule_format, of 1] by (simp add: imgs demo_images_def)
  ultimately show ?thesis using len
    by (intro nth_equalityI) (auto simp: less_Suc_eq numeral_2_eq_2)
qed

text \<open>
  C5 fails as stated. A background removal is started for an image of the collection
  and waits for the service; the image is deleted from the detail view, whose delete
  button stays enabled; the service then fails. The handler sets its failure message
  and rethrows, although the identifier is no longer in the collection.
\<close>

theorem edit_of_deleted_id_counterexample:
  "''1000-0'' \<in> id' ` set (generatedImages demo_gallery) \<and>
   handleRemoveBackground_start demo_atob ''1000-0'' demo_gallery =
     Awaiting \<lparr>data = Some ''QUJD'', mimeType = ''image/png''\<rparr> \<and>
   ''1000-0'' \<notin> id' ` set (generatedImages (handleDeleteImage ''1000-0'' demo_gallery)) \<and>
   generatedImages (handleDeleteImage ''1000-0'' demo_gallery) = [demo_images ! 1] \<and>
   error (handleDeleteImage ''1000-0'' demo_gallery) = None \<and>
   handleRemoveBackground_settle ''1000-0'' None (handleDeleteImage ''1000-0'' demo_gallery) =
     Rejected (setError (Some ''Sorry, the background could not be removed. This can happen with complex images. Please try again.'')
       (handleDeleteImage ''1000-0'' demo_gallery)) \<and>
   error (setError (Some ''Sorry, the background could not be removed. This can happen with complex images. Please try again.'')
       (handleDeleteImage ''1000-0'' demo_gallery)) \<noteq>
     error (handleDeleteImage ''1000-0'' demo_gallery)"
proof -
  have start: "handleRemoveBackground_start demo_atob ''1000-0'' demo_gallery =
     Awaiting \<lparr>data = Some ''QUJD'', mimeType = ''image/png''\<rparr>"
    by (simp add: handleRemoveBackground_start_def edit_start_def base64ToFile_def Let_def
        index_def blob_type_def ascii_lower_def demo_atob_def is_line_terminator_def
        demo_gallery_def demo_images_def demo_app_def)
  have rest: "''1000-0'' \<in> id' ` set (generatedImages demo_gallery)"
    "generatedImages (handleDeleteImage ''1000-0'' demo_gallery) = [demo_images ! 1]"
    "error (handleDeleteImage ''1000-0'' demo_gallery) = None"
    by (simp_all add: handleDeleteImage_def demo_gallery_def demo_images_def demo_app_def)
  have settle: "handleRemoveBackground_settle ''1000-0'' None (handleDeleteImage ''1000-0'' demo_gallery) =
     Rejected (setError (Some ''Sorry, the background could not be removed. This can happen with complex images. Please try again.'')
       (handleDeleteImage ''1000-0'' demo_gallery))"
    by (simp add: handleRemoveBackground_settle_def edit_settle_def)
  from start rest settle deleted_id_absent[of "''1000-0''" demo_gallery] show ?thesis by simp
qed

text \<open>
  C5, amended. For an identifier that is no longer in the collection, every edit leaves
  the collection as it is. The text overlay sets no error and raises nothing, and so
  does a background removal or outline that was waiting for the service when the service
  succeeds. When the service fails, the handler sets the failure message of its
  operation and rethrows, as it does for an identifier that is present. A background
  removal or outline started for such an identifier returns at once, having set the
  message \<^verbatim>\<open>Could not find the image to modify.\<close>
\<close>

theorem edit_of_deleted_id:
  assumes "i \<notin> id' ` set (generatedImages s)"
  shows "generatedImages (handleUpdateImageBase64 i d s) = generatedImages s \<and>
         error (handleUpdateImageBase64 i d s) = error s \<and>
         (\<exists>s'. handleRemoveBackground_settle i (Some r) s = Resolved s' \<and>
               generatedImages s' = generatedImages s \<and> error s' = error s) \<and>
         (\<exists>s'. handleAddOutline_settle i (Some r) s = Resolved s' \<and>
               generatedImages s' = generatedImages s \<and> error s' = error s) \<and>
         handleRemoveBackground_settle i None s =
           Rejected (setError (Some ''Sorry, the background could not be removed. This can happen with complex images. Please try again.'') s) \<and>
         handleAddOutline_settle i None s =
           Rejected (setError (Some ''Sorry, the outline could not be added. Please try different settings or another image.'') s) \<and>
         handleRemoveBackground_start atob i s =
           Settled (Resolved (setError (Some ''Could not find the image to modify.'') s)) \<and>
         handleAddOutline_start atob i color width s =
           Settled (Resolved (setError (Some ''Could not find the image to modify.'') s)) \<and>
         generatedImages (setError e s) = generatedImages s"
  using assms
  by (simp add: handleUpdateImageBase64_def handleRemoveBackground_settle_def
      handleAddOutline_settle_def edit_settle_def handleRemoveBackground_start_def
      handleAddOutline_start_def edit_start_def update_map_absent find_absent)

theorem edit_of_deleted_id_witness:
  "''1000-0'' \<notin> id' ` set (generatedImages (handleDeleteImage ''1000-0'' demo_gallery)) \<and>
   generatedImages (handleUpdateImageBase64 ''1000-0'' ''data:image/png;base64,WFla''
     (handleDeleteImage ''1000-0'' demo_gallery)) =
     generatedImages (handleDeleteImage ''1000-0'' demo_gallery) \<and>
   error (handleUpdateImageBase64 ''1000-0'' ''data:image/png;base64,WFla''
     (handleDeleteImage ''1000-0'' demo_gallery)) = None \<and>
   handleAddOutline_settle ''1000-0'' None (handleDeleteImage ''1000-0'' demo_gallery) =
     Rejected (setError (Some ''Sorry, the outline could not be added. Please try different settings or another image.'')
       (handleDeleteImage ''1000-0'' demo_gallery)) \<and>
   handleAddOutline_start demo_atob ''1000-0'' ''#FFFFFF'' 4 (handleDeleteImage ''1000-0'' demo_gallery) =
     Settled (Resolved (setError (Some ''Could not find the image to modify.'')
       (handleDeleteImage ''1000-0'' demo_gallery)))"
proof -
  have absent: "''1000-0'' \<notin> id' ` set (generatedImages (handleDeleteImage ''1000-0'' demo_gallery))"
    by (rule deleted_id_absent)
  have err: "error (handleDeleteImage ''1000-0'' demo_gallery) = None"
    by (simp add: handleDeleteImage_def demo_gallery_def demo_app_def)
  from edit_of_deleted_id[OF absent, where d = "''data:image/png;base64,WFla''" and r = "''WFla''"
      and atob = demo_atob and color = "''#FFFFFF''" and width = 4] absent err
  show ?thesis by simp
qed

section \<open>Identifiers of a run are distinct\<close>

lemma of_char_digit: "d < 10 \<Longrightarrow> (of_char (digit d) :: nat) = 48 + d"
  by (simp add: digit_def)

lemma digit_not_dash: "d < 10 \<Longrightarrow> digit d \<noteq> CHR ''-''"
proof
  assume "d < 10" and "digit d = CHR ''-''"
  then have "(of_char (digit d) :: nat) = of_char (CHR ''-'')" by simp
  with \<open>d < 10\<close> show False by (simp add: of_char_digit)
qed

lemma toString_no_dash: "CHR ''-'' \<notin> set (toString n)"
proof (induction n rule: toString.induct)
  case (1 n)
  show ?case
  proof (cases "n < 10")
    case True
    then show ?thesis using digit_not_dash[of n] by (subst toString.simps) auto
  next
    case False
    have "n mod 10 < 10" by simp
    with False 1 show ?thesis
      using digit_not_dash[of "n mod 10"] by (subst toString.simps) auto
  qed
qed

lemma fromString_snoc: "fromString (cs @ [c]) = 10 * fromString cs + (of_char c - 48)"
  by (simp add: fromString_def)

lemma fromString_toString: "fromString (toString n) = n"
proof (induction n rule: toString.induct)
  case (1 n)
  show ?case
  proof (cases "n < 10")
    case True
    then show ?thesis
      by (subst toString.simps) (simp add: fromString_def of_char_digit)
  next
    case False
    have "n mod 10 < 10" by simp
    with False 1 show ?thesis
      by (subst toString.simps) (simp add: fromString_snoc of_char_digit)
  qed
qed

lemma toString_inj: "toString m = toString n \<Longrightarrow> m = n"
  by (metis fromString_toString)

lemma id_determines_index:
  assumes "toString a @ ''-'' @ toString i = toString b @ ''-'' @ toString j"
  shows "i = j"
proof -
  from assms have "toString a @ CHR ''-'' # toString i = toString b @ CHR ''-'' # toString j"
    by simp
  then have "toString a = toString b \<and> toString i = toString j"
    by (simp only: append_Cons_eq_iff[OF toString_no_dash[of a] toString_no_dash[of i]])
  then have "toString i = toString j" by simp
  then show ?thesis by (rule toString_inj)
qed

lemma produced_ids:
  "img \<in> set (produced gen now c b i ps) \<Longrightarrow>
   \<exists>k\<ge>i. id' img = toString (now k) @ ''-'' @ toString k"
proof (induction ps arbitrary: i)
  case Nil
  then show ?case by simp
next
  case (Cons p ps)
  show ?case
  proof (cases "gen i (generateVariation_args c b p)")
    case None
    with Cons.prems show ?thesis by simp
  next
    case (Some r)
    with Cons.prems have "img = newImage now i p r \<or> img \<in> set (produced gen now c b (Suc i) ps)"
      by simp
    then show ?thesis
    proof
      assume "img = newImage now i p r"
      then show ?thesis by (auto simp: newImage_def)
    next
      assume "img \<in> set (produced gen now c b (Suc i) ps)"
      from Cons.IH[OF this] obtain k where "Suc i \<le> k" "id' img = toString (now k) @ ''-'' @ toString k"
        by blast
      then show ?thesis by (intro exI[of _ k]) simp
    qed
  qed
qed

lemma produced_distinct: "distinct (map id' (produced gen now c b i ps))"
proof (induction ps arbitrary: i)
  case Nil
  then show ?case by simp
next
  case (Cons p ps)
  show ?case
  proof (cases "gen i (generateVariation_args c b p)")
    case None
    then show ?thesis by simp
  next
    case (Some r)
    have "id' (newImage now i p r) \<notin> id' ` set (produced gen now c b (Suc i) ps)"
    proof
      assume "id' (newImage now i p r) \<in> id' ` set (produced gen now c b (Suc i) ps)"
      then obtain img where img: "img \<in> set (produced gen now c b (Suc i) ps)"
        and eq: "id' (newImage now i p r) = id' img" by blast
      from produced_ids[OF img] obtain k where k: "Suc i \<le> k"
        and "id' img = toString (now k) @ ''-'' @ toString k" by blast
      with eq have "toString (now i) @ ''-'' @ toString i = toString (now k) @ ''-'' @ toString k"
        by (simp add: newImage_def)
      from id_determines_index[OF this] k show False by simp
    qed
    with Some Cons.IH[of "Suc i"] show ?thesis by simp
  qed
qed

lemma executeGeneration_distinct:
  assumes "baseImage s = Some b" and "variationPrompts (variations s) = ps" and "ps \<noteq> []"
  shows "distinct (map id' (generatedImages (fst (executeGeneration gen now s))))"
  unfolding executeGeneration_images[OF assms] by (rule produced_distinct)

lemma handleDeleteImage_distinct:
  "distinct (map id' (generatedImages s)) \<Longrightarrow>
   distinct (map id' (generatedImages (handleDeleteImage i s)))"
  by (simp add: handleDeleteImage_def distinct_map_filter)

lemma handleUpdateImageBase64_distinct:
  "distinct (map id' (generatedImages s)) \<Longrightarrow>
   distinct (map id' (generatedImages (handleUpdateImageBase64 i d s)))"
  by (simp only: handleUpdateImageBase64_def setters_simps update_map_frame)

section \<open>Focus and selection in the result browser\<close>

lemma filter_last_id:
  assumes "distinct (map id' imgs)" and "imgs \<noteq> []"
  shows "filter (\<lambda>img. id' img \<noteq> id' (last imgs)) imgs = butlast imgs"
proof -
  from assms(2) have split: "imgs = butlast imgs @ [last imgs]" by simp
  with assms(1) have "distinct (map id' (butlast imgs @ [last imgs]))" by simp
  then have "id' (last imgs) \<notin> id' ` set (butlast imgs)" by simp
  have "\<forall>img\<in>set (butlast imgs). id' img \<noteq> id' (last imgs)"
  proof
    fix img assume "img \<in> set (butlast imgs)"
    then have "id' img \<in> id' ` set (butlast imgs)" by (rule imageI)
    with \<open>id' (last imgs) \<notin> id' ` set (butlast imgs)\<close>
    show "id' img \<noteq> id' (last imgs)" by metis
  qed
  then have "filter (\<lambda>img. id' img \<noteq> id' (last imgs)) (butlast imgs) = butlast imgs"
    by (simp add: filter_id_conv)
  then have "filter (\<lambda>img. id' img \<noteq> id' (last imgs)) (butlast imgs @ [last imgs]) = butlast imgs"
    by simp
  with split show ?thesis by simp
qed

text \<open>
  C8. The collection has distinct identifiers (as every collection a run produces
  has, by \<open>executeGeneration_distinct\<close>, and delete and update keep). When the detail
  view shows the entry at the last display position and that entry is deleted from the
  view, the entry is removed and the focus index becomes the last index of the new
  collection, or the view is closed when the collection is now empty; in both cases
  the index is in range.
\<close>

theorem delete_focused_last_entry:
  assumes d: "distinct (map id' (generatedImages s))"
    and last: "modalImageIndex out = Some (int (length (generatedImages s)) - 1)"
    and focus: "currentImage s out = Some img"
    and res: "handleDeleteFromModal (id' img) (s, out) = (s', out')"
  shows "generatedImages s' = butlast (generatedImages s) \<and>
         (if generatedImages s' = [] then modalImageIndex out' = None
          else modalImageIndex out' = Some (int (length (generatedImages s')) - 1)) \<and>
         index_in_range s' out'"
proof -
  from focus last have ne: "generatedImages s \<noteq> []"
    by (auto simp: currentImage_def split: if_splits)
  have "nat (int (length (generatedImages s)) - 1) = length (generatedImages s) - 1"
    by arith
  with focus last have "img = generatedImages s ! (length (generatedImages s) - 1)"
    by (auto simp: currentImage_def split: if_splits)
  with ne have img: "img = last (generatedImages s)" by (simp add: last_conv_nth)
  have del: "generatedImages (handleDeleteImage (id' img) s) = butlast (generatedImages s)"
    unfolding img handleDeleteImage_def using filter_last_id[OF d ne] by simp
  show ?thesis
  proof (cases "length (generatedImages s) \<le> 1")
    case True
    with ne have "butlast (generatedImages s) = []"
      by (cases "generatedImages s") auto
    with True res del show ?thesis
      by (auto simp: handleDeleteFromModal_def Let_def index_in_range_def)
  next
    case False
    then have "butlast (generatedImages s) \<noteq> []"
      by (cases "generatedImages s") auto
    with False res del last show ?thesis
      by (auto simp: handleDeleteFromModal_def Let_def index_in_range_def)
  qed
qed


theorem delete_focused_last_entry_witness:
  "distinct (map id' (generatedImages demo_gallery)) \<and>
   modalImageIndex demo_output = Some (int (length (generatedImages demo_gallery)) - 1) \<and>
   currentImage demo_gallery demo_output = Some (demo_images ! 1) \<and>
   id' (demo_images ! 1) = ''1001-1'' \<and>
   generatedImages (fst (handleDeleteFromModal ''1001-1'' (demo_gallery, demo_output))) =
     [demo_images ! 0] \<and>
   modalImageIndex (snd (handleDeleteFromModal ''1001-1'' (demo_gallery, demo_output))) = Some 0 \<and>
   distinct (map id' (generatedImages single_gallery)) \<and>
   modalImageIndex single_output = Some (int (length (generatedImages single_gallery)) - 1) \<and>
   currentImage single_gallery single_output = Some (demo_images ! 0) \<and>
   id' (demo_images ! 0) = ''1000-0'' \<and>
   generatedImages (fst (handleDeleteFromModal ''1000-0'' (single_gallery, single_output))) = [] \<and>
   modalImageIndex (snd (handleDeleteFromModal ''1000-0'' (single_gallery, single_output))) = None"
proof -
  have d2: "distinct (map id' (generatedImages demo_gallery))"
    by (simp add: demo_gallery_def demo_images_def)
  have l2: "modalImageIndex demo_output = Some (int (length (generatedImages demo_gallery)) - 1)"
    by (simp add: demo_gallery_def demo_images_def demo_output_def)
  have f2: "currentImage demo_gallery demo_output = Some (demo_images ! 1)"
    by (simp add: currentImage_def demo_gallery_def demo_images_def demo_output_def)
  have i2: "id' (demo_images ! 1) = ''1001-1''" by (simp add: demo_images_def)
  have r2: "handleDeleteFromModal (id' (demo_images ! 1)) (demo_gallery, demo_output) =
      (fst (handleDeleteFromModal ''1001-1'' (demo_gallery, demo_output)),
       snd (handleDeleteFromModal ''1001-1'' (demo_gallery, demo_output)))"
    unfolding i2 by simp
  note two = delete_focused_last_entry[OF d2 l2 f2 r2]
  have d1: "distinct (map id' (generatedImages single_gallery))"
    by (simp add: single_gallery_def demo_images_def)
  have l1: "modalImageIndex single_output = Some (int (length (generatedImages single_gallery)) - 1)"
    by (simp add: single_gallery_def demo_images_def single_output_def)
  have f1: "currentImage single_gallery single_output = Some (demo_images ! 0)"
    by (simp add: currentImage_def single_gallery_def demo_images_def single_output_def)
  have i1: "id' (demo_images ! 0) = ''1000-0''" by (simp add: demo_images_def)
  have r1: "handleDeleteFromModal (id' (demo_images ! 0)) (single_gallery, single_output) =
      (fst (handleDeleteFromModal ''1000-0'' (single_gallery, single_output)),
       snd (handleDeleteFromModal ''1000-0'' (single_gallery, single_output)))"
    unfolding i1 by simp
  note one = delete_focused_last_entry[OF d1 l1 f1 r1]
  have b2: "butlast (generatedImages demo_gallery) = [demo_images ! 0]"
    by (simp add: demo_gallery_def demo_images_def)
  have b1: "butlast (generatedImages single_gallery) = []"
    by (simp add: single_gallery_def demo_images_def)
  from two b2 have "generatedImages (fst (handleDeleteFromModal ''1001-1'' (demo_gallery, demo_output))) =
     [demo_images ! 0] \<and>
   modalImageIndex (snd (handleDeleteFromModal ''1001-1'' (demo_gallery, demo_output))) = Some 0"
    by simp
  moreover from one b1 have
    "generatedImages (fst (handleDeleteFromModal ''1000-0'' (single_gallery, single_output))) = [] \<and>
     modalImageIndex (snd (handleDeleteFromModal ''1000-0'' (single_gallery, single_output))) = None"
    by simp
  ultimately show ?thesis using d2 l2 f2 i2 d1 l1 f1 i1 by blast
qed

lemma executeGeneration_ref:
  assumes "baseImage s = Some b" and "variationPrompts (variations s) = ps" and "ps \<noteq> []"
  shows "generatedImages_ref s < generatedImages_ref (fst (executeGeneration gen now s))"
proof -
  have "Suc (generatedImages_ref s) \<le> generatedImages_ref (fst (executeGeneration gen now s))"
    unfolding executeGeneration_unfold[OF assms]
    using loop_ref[of "setProgress (Some \<lparr>current = 0, total = length ps\<rparr>)
                (setGeneratedImages [] (setError None (setIsLoading True s)))"
              gen now s b "length ps" 0 ps "[]" "[]"]
    by simp
  then show ?thesis by simp
qed

lemma selection_effect_fires:
  assumes "\<forall>r. effect_dep out = Some r \<longrightarrow> r < generatedImages_ref s'"
  shows "selectedImages (selection_effect s' out) = id' ` set (generatedImages s')"
  using assms by (auto simp: selection_effect_def)

lemma selection_effect_idle:
  "effect_dep out = Some (generatedImages_ref s) \<Longrightarrow> selection_effect (setError e s) out = out"
  by (simp add: selection_effect_def)

text \<open>
  C9. \<open>out\<close> is any state of the result browser whose selection effect last ran for
  the current array or an earlier one. After a batch run that passed validation (the
  collection was replaced) and the effect that follows it, the selection is the set of
  identifiers of all current entries. After \<^verbatim>\<open>handleDeleteImage\<close> and the effect
  that follows it, the deleted identifier is not selected.
\<close>

theorem selection_after_run_and_delete:
  assumes seen: "effect_seen out s"
  shows "(baseImage s \<noteq> None \<and> variationPrompts (variations s) \<noteq> [] \<longrightarrow>
            selectedImages (selection_effect (fst (executeGeneration gen now s)) out) =
              id' ` set (generatedImages (fst (executeGeneration gen now s)))) \<and>
         (\<forall>i. i \<notin> selectedImages (selection_effect (handleDeleteImage i s) out))"
proof -
  from seen have synced: "\<forall>r. effect_dep out = Some r \<longrightarrow> r \<le> generatedImages_ref s"
    by (auto simp: effect_seen_def)
  have run: "selectedImages (selection_effect (fst (executeGeneration gen now s)) out) =
              id' ` set (generatedImages (fst (executeGeneration gen now s)))"
    if "baseImage s \<noteq> None" and ne: "variationPrompts (variations s) \<noteq> []"
  proof -
    from that obtain b where b: "baseImage s = Some b" by auto
    from executeGeneration_ref[OF b refl ne, of gen now] synced
    have "\<forall>r. effect_dep out = Some r \<longrightarrow>
            r < generatedImages_ref (fst (executeGeneration gen now s))"
      by (meson le_less_trans)
    then show ?thesis by (rule selection_effect_fires)
  qed
  have del: "i \<notin> selectedImages (selection_effect (handleDeleteImage i s) out)" for i
  proof -
    from synced have "\<forall>r. effect_dep out = Some r \<longrightarrow>
            r < generatedImages_ref (handleDeleteImage i s)"
      by (auto simp: handleDeleteImage_def)
    from selection_effect_fires[OF this] show ?thesis
      using deleted_id_absent[of i s] by simp
  qed
  from run del show ?thesis by blast
qed

lemma run_two_ids:
  "map id' (generatedImages (fst (executeGeneration always_ok demo_clock (demo_app two_lines)))) =
     [''1000-0'', ''1001-1'']"
  by code_simp

theorem selection_after_run_and_delete_witness:
  "effect_seen fresh_output (demo_app two_lines) \<and>
   baseImage (demo_app two_lines) \<noteq> None \<and>
   variationPrompts (variations (demo_app two_lines)) \<noteq> [] \<and>
   selectedImages (selection_effect
     (fst (executeGeneration always_ok demo_clock (demo_app two_lines))) fresh_output) =
     {''1000-0'', ''1001-1''} \<and>
   effect_seen demo_output demo_gallery \<and>
   ''1000-0'' \<in> selectedImages demo_output \<and>
   ''1000-0'' \<notin> selectedImages (selection_effect (handleDeleteImage ''1000-0'' demo_gallery)
                    demo_output)"
proof -
  have s1: "effect_seen fresh_output (demo_app two_lines)"
    by (simp add: effect_seen_def fresh_output_def demo_app_def)
  have s2: "effect_seen demo_output demo_gallery"
    by (simp add: effect_seen_def demo_output_def demo_gallery_def)
  have b: "baseImage (demo_app two_lines) \<noteq> None" by (simp add: demo_app_def)
  have ne: "variationPrompts (variations (demo_app two_lines)) \<noteq> []"
    by (simp add: two_lines_prompts)
  have ids: "id' ` set (generatedImages (fst (executeGeneration always_ok demo_clock
      (demo_app two_lines)))) = {''1000-0'', ''1001-1''}"
    using arg_cong[OF run_two_ids, of set] by simp
  from selection_after_run_and_delete[OF s1, of always_ok demo_clock] b ne ids
  have run: "selectedImages (selection_effect
     (fst (executeGeneration always_ok demo_clock (demo_app two_lines))) fresh_output) =
     {''1000-0'', ''1001-1''}"
    by simp
  from selection_after_run_and_delete[OF s2, of always_ok demo_clock]
  have del: "''1000-0'' \<notin> selectedImages (selection_effect (handleDeleteImage ''1000-0'' demo_gallery)
                    demo_output)"
    by blast
  have sel: "''1000-0'' \<in> selectedImages demo_output" by (simp add: demo_output_def)
  from s1 s2 b ne run del sel show ?thesis by blast
qed

text \<open>
  C10. Every change of the collection stores a new array, so the selection effect runs
  and sets the selection to the identifiers of all current entries, whatever the
  selection was: after any \<^verbatim>\<open>setGeneratedImages\<close> (the reset at the start of a run
  is one), after the publication of an appended image in the loop, after a delete,
  after a text-overlay update, and after a successful background removal or outline. A
  deselection made just before such a change is lost.
\<close>

theorem selection_reset_by_every_mutation:
  assumes seen: "effect_seen out s"
  shows "selectedImages (selection_effect (setGeneratedImages imgs s) out) = id' ` set imgs \<and>
         selectedImages (selection_effect
            (setGeneratedImages (acc @ [newImage now k p r]) (setProgress pr s)) out) =
           id' ` set (acc @ [newImage now k p r]) \<and>
         selectedImages (selection_effect (handleDeleteImage i s) out) =
           id' ` set (generatedImages (handleDeleteImage i s)) \<and>
         selectedImages (selection_effect (handleUpdateImageBase64 i d s) out) =
           id' ` set (generatedImages (handleUpdateImageBase64 i d s)) \<and>
         selectedImages (selection_effect (final_state (handleRemoveBackground_settle i (Some r) s)) out) =
           id' ` set (generatedImages (final_state (handleRemoveBackground_settle i (Some r) s))) \<and>
         selectedImages (selection_effect (final_state (handleAddOutline_settle i (Some r) s)) out) =
           id' ` set (generatedImages (final_state (handleAddOutline_settle i (Some r) s))) \<and>
         selectedImages (selection_effect (handleUpdateImageBase64 i d s) (handleSelectImage j out)) =
           id' ` set (generatedImages (handleUpdateImageBase64 i d s))"
proof -
  from seen have synced: "\<forall>r. effect_dep out = Some r \<longrightarrow> r \<le> generatedImages_ref s"
    by (auto simp: effect_seen_def)
  have fires: "selectedImages (selection_effect s' out') = id' ` set (generatedImages s')"
    if "generatedImages_ref s' = Suc (generatedImages_ref s)" and "effect_dep out' = effect_dep out"
    for s' out'
  proof (rule selection_effect_fires)
    from synced that show "\<forall>r. effect_dep out' = Some r \<longrightarrow> r < generatedImages_ref s'"
      by auto
  qed
  have "selectedImages (selection_effect (setGeneratedImages imgs s) out) = id' ` set imgs"
    using fires[of "setGeneratedImages imgs s" out] by simp
  moreover have "selectedImages (selection_effect
            (setGeneratedImages (acc @ [newImage now k p r]) (setProgress pr s)) out) =
           id' ` set (acc @ [newImage now k p r])"
    using fires[of "setGeneratedImages (acc @ [newImage now k p r]) (setProgress pr s)" out]
    by simp
  moreover have "selectedImages (selection_effect (handleDeleteImage i s) out) =
           id' ` set (generatedImages (handleDeleteImage i s))"
    by (rule fires) (simp_all add: handleDeleteImage_def)
  moreover have "selectedImages (selection_effect (handleUpdateImageBase64 i d s) out') =
           id' ` set (generatedImages (handleUpdateImageBase64 i d s))"
    if "effect_dep out' = effect_dep out" for out' d
    using that by (intro fires) (simp_all add: handleUpdateImageBase64_def)
  moreover have "final_state (handleRemoveBackground_settle i (Some r) s) =
      handleUpdateImageBase64 i (''data:image/png;base64,'' @ r) s"
    "final_state (handleAddOutline_settle i (Some r) s) =
      handleUpdateImageBase64 i (''data:image/png;base64,'' @ r) s"
    by (simp_all add: final_state_def handleRemoveBackground_settle_def handleAddOutline_settle_def
        edit_settle_def handleUpdateImageBase64_def cong: if_cong)
  moreover have "effect_dep (handleSelectImage j out) = effect_dep out"
    by (simp add: handleSelectImage_def)
  ultimately show ?thesis by simp
qed

theorem selection_reset_by_every_mutation_witness:
  "effect_seen demo_output demo_gallery \<and>
   selectedImages (handleSelectImage ''1000-0'' demo_output) = {''1001-1''} \<and>
   selectedImages (selection_effect
      (handleUpdateImageBase64 ''1001-1'' ''data:image/png;base64,WFla'' demo_gallery)
      (handleSelectImage ''1000-0'' demo_output)) = {''1000-0'', ''1001-1''} \<and>
   selectedImages (selection_effect (handleDeleteImage ''1001-1'' demo_gallery) demo_output) =
     {''1000-0''}"
proof -
  have s: "effect_seen demo_output demo_gallery"
    by (simp add: effect_seen_def demo_output_def demo_gallery_def)
  have desel: "selectedImages (handleSelectImage ''1000-0'' demo_output) = {''1001-1''}"
    by (auto simp: handleSelectImage_def demo_output_def)
  have ids: "id' ` set (generatedImages
      (handleUpdateImageBase64 ''1001-1'' ''data:image/png;base64,WFla'' demo_gallery)) =
      {''1000-0'', ''1001-1''}"
    by (simp add: handleUpdateImageBase64_def demo_gallery_def demo_images_def)
  have ids': "id' ` set (generatedImages (handleDeleteImage ''1001-1'' demo_gallery)) = {''1000-0''}"
    by (simp add: handleDeleteImage_def demo_gallery_def demo_images_def)
  note reset = selection_reset_by_every_mutation[OF s,
      where i = "''1001-1''" and d = "''data:image/png;base64,WFla''" and j = "''1000-0''"]
  from reset ids ids' desel s show ?thesis by simp
qed

end
